theory Spec2Isabelle
  imports Main "HOL-Library.Char_ord" "HOL-Library.List_Lexorder" "HOL-Library.Multiset"
begin

section \<open>The registry of feast/registry.py\<close>

text \<open>
  A shallow embedding of \<^verbatim>\<open>sdk/python/feast/registry.py\<close>. The class
  \<^verbatim>\<open>Registry\<close> keeps a cached \<^verbatim>\<open>RegistryProto\<close>, the instant it was
  loaded and a time-to-live; every method reads or mutates that cache and talks to a
  registry store. Mutation is modelled by state passing: a method takes the registry and
  returns its result together with the registry afterwards, so that the state an
  exception leaves behind is visible too. The clock (\<^verbatim>\<open>datetime.now()\<close>) is an
  argument \<open>now\<close> of each call: both reads of the clock inside one call see that instant.
\<close>

subsection \<open>Data model\<close>

type_synonym timestamp = int

text \<open>
  The protobuf messages stored in the registry. The message classes are generated code
  that is not part of the sources at hand; the registry reads and writes
  \<^verbatim>\<open>spec.name\<close> and \<^verbatim>\<open>spec.project\<close> only, the rest of the specification is the
  opaque \<open>spec_payload\<close>. The meta part carries the creation timestamp and, for feature
  views, the materialization intervals.
\<close>

record 'p fco_proto =
  spec_name :: string
  spec_project :: string
  spec_payload :: 'p
  meta_created_timestamp :: "timestamp option"
  meta_materialization_intervals :: "(timestamp \<times> timestamp) list"

text \<open>\<^verbatim>\<open>RegistryProto\<close>: the schema version, the repeated fields and the infra blob.\<close>

record 'p registry_proto =
  registry_schema_version :: string
  entities :: "'p fco_proto list"
  feature_views :: "'p fco_proto list"
  feature_tables :: "'p fco_proto list"
  on_demand_feature_views :: "'p fco_proto list"
  request_feature_views :: "'p fco_proto list"
  feature_services :: "'p fco_proto list"
  infra :: string

definition REGISTRY_SCHEMA_VERSION :: string where
  "REGISTRY_SCHEMA_VERSION = ''1''"

text \<open>\<^verbatim>\<open>RegistryProto()\<close>: every field at its protobuf default.\<close>

definition RegistryProto :: "'p registry_proto" where
  "RegistryProto = \<lparr>registry_schema_version = '''', entities = [], feature_views = [],
     feature_tables = [], on_demand_feature_views = [], request_feature_views = [],
     feature_services = [], infra = ''''\<rparr>"

text \<open>
  The objects of the SDK (\<^verbatim>\<open>Entity\<close>, \<^verbatim>\<open>FeatureService\<close>, and the subclasses of
  \<^verbatim>\<open>BaseFeatureView\<close>). A feature view knows its class; \<^verbatim>\<open>apply_feature_view\<close>
  raises \<^verbatim>\<open>ValueError\<close> for an object of none of the three classes, which the type
  \<open>fv_class\<close> excludes.
\<close>

datatype fv_class = FeatureView | OnDemandFeatureView | RequestFeatureView

record 'p fco =
  name :: string
  payload :: 'p
  created_timestamp :: "timestamp option"
  materialization_intervals :: "(timestamp \<times> timestamp) list"

record 'p base_feature_view = "'p fco" +
  fv_class :: fv_class

text \<open>
  Modelled from the spec: the conversions \<^verbatim>\<open>to_proto\<close> and \<^verbatim>\<open>from_proto\<close> of the
  SDK classes, which are missing from the sources at hand. An object carries an identity,
  a specification payload and, for feature views, a created timestamp and an ordered list
  of materialization intervals; the project is not part of the object: the registry
  stamps it onto the message after \<^verbatim>\<open>to_proto\<close>.
\<close>

definition to_proto :: "('p, 'm) fco_scheme \<Rightarrow> 'p fco_proto" where
  "to_proto obj = \<lparr>spec_name = name obj, spec_project = '''', spec_payload = payload obj,
     meta_created_timestamp = created_timestamp obj,
     meta_materialization_intervals = materialization_intervals obj\<rparr>"

definition from_proto :: "'p fco_proto \<Rightarrow> 'p fco" where
  "from_proto m = \<lparr>name = spec_name m, payload = spec_payload m,
     created_timestamp = meta_created_timestamp m,
     materialization_intervals = meta_materialization_intervals m\<rparr>"

definition fv_from_proto :: "fv_class \<Rightarrow> 'p fco_proto \<Rightarrow> 'p base_feature_view" where
  "fv_from_proto c m = \<lparr>name = spec_name m, payload = spec_payload m,
     created_timestamp = meta_created_timestamp m,
     materialization_intervals = meta_materialization_intervals m, fv_class = c\<rparr>"

datatype error =
    FileNotFoundError
  | IndexError
  | ValidationError
  | EntityNotFoundException string string
  | FeatureViewNotFoundException string string
  | FeatureServiceNotFoundException string string
  | OnDemandFeatureViewNotFoundException string string
  | ConflictingFeatureViewNames string

subsection \<open>The registry store\<close>

text \<open>
  Modelled from the spec: the registry store (\<^verbatim>\<open>self._registry_store\<close>), whose
  classes are missing from the sources at hand. It holds one whole snapshot or nothing;
  \<^verbatim>\<open>get_registry_proto\<close> loads it or fails with NotFound, \<^verbatim>\<open>update_registry_proto\<close>
  replaces it, \<^verbatim>\<open>teardown\<close> erases it. The field \<open>loads\<close> counts the calls of
  \<^verbatim>\<open>get_registry_proto\<close>, so that "without touching the backend" can be stated.
\<close>

record 'p registry_store =
  content :: "'p registry_proto option"
  loads :: nat

definition store_get_registry_proto ::
    "'p registry_store \<Rightarrow> (error + 'p registry_proto) \<times> 'p registry_store" where
  "store_get_registry_proto st =
     (case content st of
        None \<Rightarrow> (Inl FileNotFoundError, st\<lparr>loads := Suc (loads st)\<rparr>)
      | Some p \<Rightarrow> (Inr p, st\<lparr>loads := Suc (loads st)\<rparr>))"

definition update_registry_proto ::
    "'p registry_proto \<Rightarrow> 'p registry_store \<Rightarrow> 'p registry_store" where
  "update_registry_proto p st = st\<lparr>content := Some p\<rparr>"

definition store_teardown :: "'p registry_store \<Rightarrow> 'p registry_store" where
  "store_teardown st = st\<lparr>content := None\<rparr>"

subsection \<open>The cache\<close>

record 'p registry =
  cached_registry_proto :: "'p registry_proto option"
  cached_registry_proto_created :: "timestamp option"
  cached_registry_proto_ttl :: int
  registry_store :: "'p registry_store"

text \<open>
  The local \<^verbatim>\<open>expired\<close> of \<^verbatim>\<open>_get_registry_proto\<close>. The time-to-live is a
  \<^verbatim>\<open>timedelta\<close>, which may be negative; only a positive one can expire.
\<close>

definition expired :: "timestamp \<Rightarrow> 'p registry \<Rightarrow> bool" where
  "expired now r =
     (case (cached_registry_proto r, cached_registry_proto_created r) of
        (Some p, Some created) \<Rightarrow>
          cached_registry_proto_ttl r > 0 \<and> now > created + cached_registry_proto_ttl r
      | _ \<Rightarrow> True)"

definition get_registry_proto ::
    "timestamp \<Rightarrow> bool \<Rightarrow> 'p registry \<Rightarrow> (error + 'p registry_proto) \<times> 'p registry" where
  "get_registry_proto now allow_cache r =
     (case (allow_cache \<and> \<not> expired now r, cached_registry_proto r) of
        (True, Some p) \<Rightarrow> (Inr p, r)
      | _ \<Rightarrow>
         (case store_get_registry_proto (registry_store r) of
            (Inl e, st) \<Rightarrow> (Inl e, r\<lparr>registry_store := st\<rparr>)
          | (Inr registry_proto, st) \<Rightarrow>
              (Inr registry_proto,
               r\<lparr>cached_registry_proto := Some registry_proto,
                 cached_registry_proto_created := Some now,
                 registry_store := st\<rparr>)))"

definition prepare_registry_for_changes ::
    "timestamp \<Rightarrow> 'p registry \<Rightarrow> (error + 'p registry_proto) \<times> 'p registry" where
  "prepare_registry_for_changes now r =
     (case get_registry_proto now True r of
        (Inr p, r') \<Rightarrow> (Inr p, r')
      | (Inl e, r') \<Rightarrow>
          (if e = FileNotFoundError then
             (let registry_proto = RegistryProto\<lparr>registry_schema_version := REGISTRY_SCHEMA_VERSION\<rparr>
              in (Inr registry_proto,
                  r'\<lparr>cached_registry_proto := Some registry_proto,
                     cached_registry_proto_created := Some now\<rparr>))
           else (Inl e, r')))"

definition commit :: "'p registry \<Rightarrow> 'p registry" where
  "commit r =
     (case cached_registry_proto r of
        None \<Rightarrow> r
      | Some p \<Rightarrow> r\<lparr>registry_store := update_registry_proto p (registry_store r)\<rparr>)"

definition refresh :: "timestamp \<Rightarrow> 'p registry \<Rightarrow> (error + unit) \<times> 'p registry" where
  "refresh now r =
     (case get_registry_proto now False r of
        (Inl e, r') \<Rightarrow> (Inl e, r')
      | (Inr p, r') \<Rightarrow> (Inr (), r'))"

definition teardown :: "'p registry \<Rightarrow> 'p registry" where
  "teardown r = r\<lparr>registry_store := store_teardown (registry_store r)\<rparr>"

definition initialize_registry :: "timestamp \<Rightarrow> 'p registry \<Rightarrow> (error + unit) \<times> 'p registry" where
  "initialize_registry now r =
     (case get_registry_proto now False r of
        (Inr p, r') \<Rightarrow> (Inr (), r')
      | (Inl e, r') \<Rightarrow>
          (if e = FileNotFoundError then
             (let registry_proto = RegistryProto\<lparr>registry_schema_version := REGISTRY_SCHEMA_VERSION\<rparr>
              in (Inr (),
                  r'\<lparr>registry_store := update_registry_proto registry_proto (registry_store r')\<rparr>))
           else (Inl e, r')))"


subsection \<open>Loops over a repeated field\<close>

text \<open>
  \<^verbatim>\<open>for idx, x in enumerate(xs): if P(x): ...; break\<close> (or \<^verbatim>\<open>return\<close>) acts on the
  first element that satisfies the test: \<open>find_first\<close> gives its index and the element.
  \<^verbatim>\<open>del xs[idx]\<close> is \<open>delete_at\<close>; the index always comes from the enumeration, so
  it is in range.
\<close>

fun find_first :: "('a \<Rightarrow> bool) \<Rightarrow> 'a list \<Rightarrow> (nat \<times> 'a) option" where
  "find_first P [] = None"
| "find_first P (x # xs) =
     (if P x then Some (0, x)
      else (case find_first P xs of None \<Rightarrow> None | Some (idx, y) \<Rightarrow> Some (Suc idx, y)))"

definition delete_at :: "nat \<Rightarrow> 'a list \<Rightarrow> 'a list" where
  "delete_at idx xs = take idx xs @ drop (Suc idx) xs"

definition matches :: "string \<Rightarrow> string \<Rightarrow> 'p fco_proto \<Rightarrow> bool" where
  "matches nm project m = (spec_name m = nm \<and> spec_project m = project)"

text \<open>
  The loop of \<^verbatim>\<open>apply_feature_service\<close> deletes without leaving the loop. The
  iteration over a repeated field goes by index, so after \<^verbatim>\<open>del xs[idx]\<close> the next
  element looked at is the one at \<open>idx + 1\<close> of the shortened list.
\<close>

function delete_matching_no_break :: "('a \<Rightarrow> bool) \<Rightarrow> nat \<Rightarrow> 'a list \<Rightarrow> 'a list" where
  "delete_matching_no_break P idx xs =
     (if idx < length xs then
        (if P (xs ! idx) then delete_matching_no_break P (Suc idx) (delete_at idx xs)
         else delete_matching_no_break P (Suc idx) xs)
      else xs)"
  by pat_completeness auto
termination
  by (relation "measure (\<lambda>(P, idx, xs). length xs - idx)") (auto simp: delete_at_def)

declare delete_matching_no_break.simps [simp del]

definition maybe_commit :: "bool \<Rightarrow> 'p registry \<Rightarrow> 'p registry" where
  "maybe_commit commit_flag r = (if commit_flag then commit r else r)"

subsection \<open>Infra\<close>

definition update_infra ::
    "string \<Rightarrow> string \<Rightarrow> bool \<Rightarrow> timestamp \<Rightarrow> 'p registry \<Rightarrow> (error + unit) \<times> 'p registry" where
  "update_infra infra_proto project commit_flag now r =
     (case prepare_registry_for_changes now r of
        (Inl e, r1) \<Rightarrow> (Inl e, r1)
      | (Inr reg, r1) \<Rightarrow>
          (Inr (), maybe_commit commit_flag
             (r1\<lparr>cached_registry_proto := Some (reg\<lparr>infra := infra_proto\<rparr>)\<rparr>)))"

definition get_infra ::
    "string \<Rightarrow> timestamp \<Rightarrow> bool \<Rightarrow> 'p registry \<Rightarrow> (error + string) \<times> 'p registry" where
  "get_infra project now allow_cache r =
     (case get_registry_proto now allow_cache r of
        (Inl e, r') \<Rightarrow> (Inl e, r')
      | (Inr reg, r') \<Rightarrow> (Inr (infra reg), r'))"

subsection \<open>Entities\<close>

text \<open>
  The validity checks (\<^verbatim>\<open>entity.is_valid()\<close>, \<^verbatim>\<open>feature_view.ensure_valid()\<close>) and
  the equality of feature views belong to the SDK classes, which are missing from the
  sources at hand: they are parameters \<open>is_valid\<close>, \<open>ensure_valid\<close> and \<open>eq\<close> of the
  methods that call them.
\<close>

definition apply_entity ::
    "('p fco \<Rightarrow> bool) \<Rightarrow> 'p fco \<Rightarrow> string \<Rightarrow> bool \<Rightarrow> timestamp \<Rightarrow> 'p registry
     \<Rightarrow> (error + unit) \<times> 'p registry" where
  "apply_entity is_valid entity project commit_flag now r =
     (if \<not> is_valid entity then (Inl ValidationError, r)
      else
        (let entity_proto = (to_proto entity)\<lparr>spec_project := project\<rparr> in
         case prepare_registry_for_changes now r of
           (Inl e, r1) \<Rightarrow> (Inl e, r1)
         | (Inr reg, r1) \<Rightarrow>
             (let kept =
                    (case find_first (matches (spec_name entity_proto) project) (entities reg) of
                       None \<Rightarrow> entities reg
                     | Some (idx, existing_entity_proto) \<Rightarrow> delete_at idx (entities reg))
              in (Inr (), maybe_commit commit_flag
                    (r1\<lparr>cached_registry_proto :=
                          Some (reg\<lparr>entities := kept @ [entity_proto]\<rparr>)\<rparr>)))))"

definition list_entities ::
    "string \<Rightarrow> timestamp \<Rightarrow> bool \<Rightarrow> 'p registry \<Rightarrow> (error + 'p fco list) \<times> 'p registry" where
  "list_entities project now allow_cache r =
     (case get_registry_proto now allow_cache r of
        (Inl e, r') \<Rightarrow> (Inl e, r')
      | (Inr reg, r') \<Rightarrow>
          (Inr (map from_proto (filter (\<lambda>m. spec_project m = project) (entities reg))), r'))"

definition get_entity ::
    "string \<Rightarrow> string \<Rightarrow> timestamp \<Rightarrow> bool \<Rightarrow> 'p registry \<Rightarrow> (error + 'p fco) \<times> 'p registry" where
  "get_entity nm project now allow_cache r =
     (case get_registry_proto now allow_cache r of
        (Inl e, r') \<Rightarrow> (Inl e, r')
      | (Inr reg, r') \<Rightarrow>
          (case find_first (matches nm project) (entities reg) of
             Some (idx, entity_proto) \<Rightarrow> (Inr (from_proto entity_proto), r')
           | None \<Rightarrow> (Inl (EntityNotFoundException nm project), r')))"

definition delete_entity ::
    "string \<Rightarrow> string \<Rightarrow> bool \<Rightarrow> timestamp \<Rightarrow> 'p registry \<Rightarrow> (error + unit) \<times> 'p registry" where
  "delete_entity nm project commit_flag now r =
     (case prepare_registry_for_changes now r of
        (Inl e, r1) \<Rightarrow> (Inl e, r1)
      | (Inr reg, r1) \<Rightarrow>
          (case find_first (matches nm project) (entities reg) of
             Some (idx, existing_entity_proto) \<Rightarrow>
               (Inr (), maybe_commit commit_flag
                  (r1\<lparr>cached_registry_proto :=
                        Some (reg\<lparr>entities := delete_at idx (entities reg)\<rparr>)\<rparr>))
           | None \<Rightarrow> (Inl (EntityNotFoundException nm project), r1)))"

subsection \<open>Feature services\<close>

definition apply_feature_service ::
    "'p fco \<Rightarrow> string \<Rightarrow> bool \<Rightarrow> timestamp \<Rightarrow> 'p registry \<Rightarrow> (error + unit) \<times> 'p registry" where
  "apply_feature_service feature_service project commit_flag now r =
     (let feature_service_proto = (to_proto feature_service)\<lparr>spec_project := project\<rparr> in
      case prepare_registry_for_changes now r of
        (Inl e, r1) \<Rightarrow> (Inl e, r1)
      | (Inr reg, r1) \<Rightarrow>
          (let kept = delete_matching_no_break
                        (matches (spec_name feature_service_proto) project) 0 (feature_services reg)
           in (Inr (), maybe_commit commit_flag
                 (r1\<lparr>cached_registry_proto :=
                       Some (reg\<lparr>feature_services := kept @ [feature_service_proto]\<rparr>)\<rparr>))))"

definition list_feature_services ::
    "string \<Rightarrow> timestamp \<Rightarrow> bool \<Rightarrow> 'p registry \<Rightarrow> (error + 'p fco list) \<times> 'p registry" where
  "list_feature_services project now allow_cache r =
     (case get_registry_proto now allow_cache r of
        (Inl e, r') \<Rightarrow> (Inl e, r')
      | (Inr reg, r') \<Rightarrow>
          (Inr (map from_proto (filter (\<lambda>m. spec_project m = project) (feature_services reg))),
           r'))"

definition get_feature_service ::
    "string \<Rightarrow> string \<Rightarrow> timestamp \<Rightarrow> bool \<Rightarrow> 'p registry \<Rightarrow> (error + 'p fco) \<times> 'p registry" where
  "get_feature_service nm project now allow_cache r =
     (case get_registry_proto now allow_cache r of
        (Inl e, r') \<Rightarrow> (Inl e, r')
      | (Inr reg, r') \<Rightarrow>
          (case find_first (\<lambda>m. spec_project m = project \<and> spec_name m = nm)
                  (feature_services reg) of
             Some (idx, feature_service_proto) \<Rightarrow> (Inr (from_proto feature_service_proto), r')
           | None \<Rightarrow> (Inl (FeatureServiceNotFoundException nm project), r')))"

definition delete_feature_service ::
    "string \<Rightarrow> string \<Rightarrow> bool \<Rightarrow> timestamp \<Rightarrow> 'p registry \<Rightarrow> (error + unit) \<times> 'p registry" where
  "delete_feature_service nm project commit_flag now r =
     (case prepare_registry_for_changes now r of
        (Inl e, r1) \<Rightarrow> (Inl e, r1)
      | (Inr reg, r1) \<Rightarrow>
          (case find_first (matches nm project) (feature_services reg) of
             Some (idx, feature_service_proto) \<Rightarrow>
               (Inr (), maybe_commit commit_flag
                  (r1\<lparr>cached_registry_proto :=
                        Some (reg\<lparr>feature_services := delete_at idx (feature_services reg)\<rparr>)\<rparr>))
           | None \<Rightarrow> (Inl (FeatureServiceNotFoundException nm project), r1)))"

subsection \<open>Feature views\<close>

text \<open>
  The three repeated fields of feature views hold messages of three classes; the
  dictionary of \<^verbatim>\<open>_existing_feature_view_names_to_fvs\<close> mixes them, so its values are
  tagged with their class. \<open>is_instance m c\<close> is
  \<^verbatim>\<open>isinstance(m, feature_view.proto_class)\<close> for a feature view of class \<open>c\<close>.
\<close>

datatype 'p message =
    OnDemandFeatureViewProto "'p fco_proto"
  | FeatureViewProto "'p fco_proto"
  | RequestFeatureViewProto "'p fco_proto"

fun is_instance :: "'p message \<Rightarrow> fv_class \<Rightarrow> bool" where
  "is_instance (OnDemandFeatureViewProto m) c = (c = OnDemandFeatureView)"
| "is_instance (FeatureViewProto m) c = (c = FeatureView)"
| "is_instance (RequestFeatureViewProto m) c = (c = RequestFeatureView)"

text \<open>
  A dict comprehension \<^verbatim>\<open>{k(x): v(x) for x in xs}\<close>: a later element replaces an
  earlier one with the same key. \<^verbatim>\<open>{**a, **b, **c}\<close> is \<open>a ++ b ++ c\<close>.
\<close>

definition dict_of :: "('a \<Rightarrow> 'k) \<Rightarrow> ('a \<Rightarrow> 'v) \<Rightarrow> 'a list \<Rightarrow> ('k \<rightharpoonup> 'v)" where
  "dict_of k v xs = map_of (rev (map (\<lambda>x. (k x, v x)) xs))"

definition existing_feature_view_names_to_fvs ::
    "'p registry_proto \<Rightarrow> (string \<rightharpoonup> 'p message)" where
  "existing_feature_view_names_to_fvs reg =
     (let odfvs = dict_of spec_name OnDemandFeatureViewProto (on_demand_feature_views reg);
          fvs = dict_of spec_name FeatureViewProto (feature_views reg);
          request_fvs = dict_of spec_name RequestFeatureViewProto (request_feature_views reg)
      in odfvs ++ fvs ++ request_fvs)"

definition check_conflicting_feature_view_names ::
    "'p registry_proto \<Rightarrow> 'p base_feature_view \<Rightarrow> error + unit" where
  "check_conflicting_feature_view_names reg feature_view =
     (case existing_feature_view_names_to_fvs reg (name feature_view) of
        None \<Rightarrow> Inr ()
      | Some m \<Rightarrow>
          (if \<not> is_instance m (fv_class feature_view)
           then Inl (ConflictingFeatureViewNames (name feature_view))
           else Inr ()))"

text \<open>\<^verbatim>\<open>existing_feature_views_of_same_type\<close>: the repeated field of the object's class.\<close>

fun existing_feature_views_of_same_type :: "fv_class \<Rightarrow> 'p registry_proto \<Rightarrow> 'p fco_proto list" where
  "existing_feature_views_of_same_type FeatureView reg = feature_views reg"
| "existing_feature_views_of_same_type OnDemandFeatureView reg = on_demand_feature_views reg"
| "existing_feature_views_of_same_type RequestFeatureView reg = request_feature_views reg"

fun set_feature_views_of_same_type ::
    "fv_class \<Rightarrow> 'p fco_proto list \<Rightarrow> 'p registry_proto \<Rightarrow> 'p registry_proto" where
  "set_feature_views_of_same_type FeatureView xs reg = reg\<lparr>feature_views := xs\<rparr>"
| "set_feature_views_of_same_type OnDemandFeatureView xs reg = reg\<lparr>on_demand_feature_views := xs\<rparr>"
| "set_feature_views_of_same_type RequestFeatureView xs reg = reg\<lparr>request_feature_views := xs\<rparr>"

definition stamp_created :: "timestamp \<Rightarrow> 'p base_feature_view \<Rightarrow> 'p base_feature_view" where
  "stamp_created now feature_view =
     (if created_timestamp feature_view = None
      then feature_view\<lparr>created_timestamp := Some now\<rparr> else feature_view)"

definition apply_feature_view ::
    "('p base_feature_view \<Rightarrow> bool) \<Rightarrow> ('p base_feature_view \<Rightarrow> 'p base_feature_view \<Rightarrow> bool)
     \<Rightarrow> 'p base_feature_view \<Rightarrow> string \<Rightarrow> bool \<Rightarrow> timestamp \<Rightarrow> 'p registry
     \<Rightarrow> (error + unit) \<times> 'p registry" where
  "apply_feature_view ensure_valid eq feature_view0 project commit_flag now r =
     (if \<not> ensure_valid feature_view0 then (Inl ValidationError, r)
      else
        (let feature_view = stamp_created now feature_view0;
             feature_view_proto = (to_proto feature_view)\<lparr>spec_project := project\<rparr> in
         case prepare_registry_for_changes now r of
           (Inl e, r1) \<Rightarrow> (Inl e, r1)
         | (Inr reg, r1) \<Rightarrow>
             (case check_conflicting_feature_view_names reg feature_view of
                Inl e \<Rightarrow> (Inl e, r1)
              | Inr u \<Rightarrow>
                  (let existing = existing_feature_views_of_same_type (fv_class feature_view) reg in
                   case find_first (matches (spec_name feature_view_proto) project) existing of
                     Some (idx, existing_feature_view_proto) \<Rightarrow>
                       (if eq (fv_from_proto (fv_class feature_view) existing_feature_view_proto)
                              feature_view
                        then (Inr (), r1)
                        else (Inr (), maybe_commit commit_flag
                                (r1\<lparr>cached_registry_proto :=
                                      Some (set_feature_views_of_same_type (fv_class feature_view)
                                              (delete_at idx existing @ [feature_view_proto]) reg)\<rparr>)))
                   | None \<Rightarrow>
                       (Inr (), maybe_commit commit_flag
                          (r1\<lparr>cached_registry_proto :=
                                Some (set_feature_views_of_same_type (fv_class feature_view)
                                        (existing @ [feature_view_proto]) reg)\<rparr>))))))"

definition list_feature_views ::
    "string \<Rightarrow> timestamp \<Rightarrow> bool \<Rightarrow> 'p registry
     \<Rightarrow> (error + 'p base_feature_view list) \<times> 'p registry" where
  "list_feature_views project now allow_cache r =
     (case get_registry_proto now allow_cache r of
        (Inl e, r') \<Rightarrow> (Inl e, r')
      | (Inr reg, r') \<Rightarrow>
          (Inr (map (fv_from_proto FeatureView)
                  (filter (\<lambda>m. spec_project m = project) (feature_views reg))), r'))"

definition list_on_demand_feature_views ::
    "string \<Rightarrow> timestamp \<Rightarrow> bool \<Rightarrow> 'p registry
     \<Rightarrow> (error + 'p base_feature_view list) \<times> 'p registry" where
  "list_on_demand_feature_views project now allow_cache r =
     (case get_registry_proto now allow_cache r of
        (Inl e, r') \<Rightarrow> (Inl e, r')
      | (Inr reg, r') \<Rightarrow>
          (Inr (map (fv_from_proto OnDemandFeatureView)
                  (filter (\<lambda>m. spec_project m = project) (on_demand_feature_views reg))), r'))"

definition list_request_feature_views ::
    "string \<Rightarrow> timestamp \<Rightarrow> bool \<Rightarrow> 'p registry
     \<Rightarrow> (error + 'p base_feature_view list) \<times> 'p registry" where
  "list_request_feature_views project now allow_cache r =
     (case get_registry_proto now allow_cache r of
        (Inl e, r') \<Rightarrow> (Inl e, r')
      | (Inr reg, r') \<Rightarrow>
          (Inr (map (fv_from_proto RequestFeatureView)
                  (filter (\<lambda>m. spec_project m = project) (request_feature_views reg))), r'))"

definition get_feature_view ::
    "string \<Rightarrow> string \<Rightarrow> timestamp \<Rightarrow> bool \<Rightarrow> 'p registry
     \<Rightarrow> (error + 'p base_feature_view) \<times> 'p registry" where
  "get_feature_view nm project now allow_cache r =
     (case get_registry_proto now allow_cache r of
        (Inl e, r') \<Rightarrow> (Inl e, r')
      | (Inr reg, r') \<Rightarrow>
          (case find_first (matches nm project) (feature_views reg) of
             Some (idx, feature_view_proto) \<Rightarrow>
               (Inr (fv_from_proto FeatureView feature_view_proto), r')
           | None \<Rightarrow> (Inl (FeatureViewNotFoundException nm project), r')))"

definition get_on_demand_feature_view ::
    "string \<Rightarrow> string \<Rightarrow> timestamp \<Rightarrow> bool \<Rightarrow> 'p registry
     \<Rightarrow> (error + 'p base_feature_view) \<times> 'p registry" where
  "get_on_demand_feature_view nm project now allow_cache r =
     (case get_registry_proto now allow_cache r of
        (Inl e, r') \<Rightarrow> (Inl e, r')
      | (Inr reg, r') \<Rightarrow>
          (case find_first (\<lambda>m. spec_project m = project \<and> spec_name m = nm)
                  (on_demand_feature_views reg) of
             Some (idx, on_demand_feature_view) \<Rightarrow>
               (Inr (fv_from_proto OnDemandFeatureView on_demand_feature_view), r')
           | None \<Rightarrow> (Inl (OnDemandFeatureViewNotFoundException nm project), r')))"

definition apply_materialization ::
    "'p base_feature_view \<Rightarrow> string \<Rightarrow> timestamp \<Rightarrow> timestamp \<Rightarrow> bool \<Rightarrow> timestamp
     \<Rightarrow> 'p registry \<Rightarrow> (error + unit) \<times> 'p registry" where
  "apply_materialization feature_view project start_date end_date commit_flag now r =
     (case prepare_registry_for_changes now r of
        (Inl e, r1) \<Rightarrow> (Inl e, r1)
      | (Inr reg, r1) \<Rightarrow>
          (case find_first (matches (name feature_view) project) (feature_views reg) of
             Some (idx, existing_feature_view_proto) \<Rightarrow>
               (let existing_feature_view = fv_from_proto FeatureView existing_feature_view_proto;
                    existing_feature_view = existing_feature_view
                      \<lparr>materialization_intervals :=
                         materialization_intervals existing_feature_view @ [(start_date, end_date)]\<rparr>;
                    feature_view_proto = (to_proto existing_feature_view)\<lparr>spec_project := project\<rparr>
                in (Inr (), maybe_commit commit_flag
                      (r1\<lparr>cached_registry_proto :=
                            Some (reg\<lparr>feature_views :=
                                    delete_at idx (feature_views reg) @ [feature_view_proto]\<rparr>)\<rparr>)))
           | None \<Rightarrow> (Inl (FeatureViewNotFoundException (name feature_view) project), r1)))"

definition delete_feature_view ::
    "string \<Rightarrow> string \<Rightarrow> bool \<Rightarrow> timestamp \<Rightarrow> 'p registry \<Rightarrow> (error + unit) \<times> 'p registry" where
  "delete_feature_view nm project commit_flag now r =
     (case prepare_registry_for_changes now r of
        (Inl e, r1) \<Rightarrow> (Inl e, r1)
      | (Inr reg, r1) \<Rightarrow>
          (case find_first (matches nm project) (feature_views reg) of
             Some (idx, existing_feature_view_proto) \<Rightarrow>
               (Inr (), maybe_commit commit_flag
                  (r1\<lparr>cached_registry_proto :=
                        Some (reg\<lparr>feature_views := delete_at idx (feature_views reg)\<rparr>)\<rparr>))
           | None \<Rightarrow>
               (case find_first (matches nm project) (request_feature_views reg) of
                  Some (idx, existing_request_feature_view_proto) \<Rightarrow>
                    (Inr (), maybe_commit commit_flag
                       (r1\<lparr>cached_registry_proto :=
                             Some (reg\<lparr>request_feature_views :=
                                     delete_at idx (request_feature_views reg)\<rparr>)\<rparr>))
                | None \<Rightarrow> (Inl (FeatureViewNotFoundException nm project), r1))))"

subsection \<open>The dictionary form\<close>

text \<open>
  \<^verbatim>\<open>registry_dict\<close> is a \<^verbatim>\<open>defaultdict(list)\<close>: a key appears with the first element
  appended under it. The rendering \<^verbatim>\<open>MessageToDict\<close> is a library function and a
  parameter here. \<^verbatim>\<open>sorted(xs, key=...)\<close> is stable, as \<open>sort_key\<close> is; strings are
  compared character by character.
\<close>

definition dict_append :: "'k \<Rightarrow> 'v \<Rightarrow> ('k \<rightharpoonup> 'v list) \<Rightarrow> ('k \<rightharpoonup> 'v list)" where
  "dict_append k v d = d(k \<mapsto> (case d k of None \<Rightarrow> [] | Some vs \<Rightarrow> vs) @ [v])"

definition append_sorted ::
    "('p fco_proto \<Rightarrow> 'd) \<Rightarrow> string \<Rightarrow> ('p, 'm) fco_scheme list \<Rightarrow> (string \<rightharpoonup> 'd list)
     \<Rightarrow> (string \<rightharpoonup> 'd list)" where
  "append_sorted MessageToDict label objs d =
     foldl (\<lambda>d obj. dict_append label (MessageToDict (to_proto obj)) d) d (sort_key name objs)"

definition to_dict ::
    "('p fco_proto \<Rightarrow> 'd) \<Rightarrow> string \<Rightarrow> timestamp \<Rightarrow> 'p registry
     \<Rightarrow> (error + (string \<rightharpoonup> 'd list)) \<times> 'p registry" where
  "to_dict MessageToDict project now r =
     (case list_entities project now False r of
        (Inl e, r1) \<Rightarrow> (Inl e, r1)
      | (Inr es, r1) \<Rightarrow>
     (case list_feature_views project now False r1 of
        (Inl e, r2) \<Rightarrow> (Inl e, r2)
      | (Inr fvs, r2) \<Rightarrow>
     (case list_feature_services project now False r2 of
        (Inl e, r3) \<Rightarrow> (Inl e, r3)
      | (Inr fss, r3) \<Rightarrow>
     (case list_on_demand_feature_views project now False r3 of
        (Inl e, r4) \<Rightarrow> (Inl e, r4)
      | (Inr odfvs, r4) \<Rightarrow>
     (case list_request_feature_views project now False r4 of
        (Inl e, r5) \<Rightarrow> (Inl e, r5)
      | (Inr rfvs, r5) \<Rightarrow>
          (Inr (append_sorted MessageToDict ''requestFeatureViews'' rfvs
               (append_sorted MessageToDict ''onDemandFeatureViews'' odfvs
               (append_sorted MessageToDict ''featureServices'' fss
               (append_sorted MessageToDict ''featureViews'' fvs
               (append_sorted MessageToDict ''entities'' es Map.empty))))), r5))))))"

text \<open>Reading a \<^verbatim>\<open>defaultdict(list)\<close>: a missing key reads as the empty list.\<close>

definition dict_get :: "('k \<rightharpoonup> 'v list) \<Rightarrow> 'k \<Rightarrow> 'v list" where
  "dict_get d k = (case d k of None \<Rightarrow> [] | Some vs \<Rightarrow> vs)"

subsection \<open>The diff of two registries\<close>

text \<open>
  Modelled from the spec: the module \<^verbatim>\<open>feast.diff.FcoDiff\<close> (\<^verbatim>\<open>FcoDiff\<close>,
  \<^verbatim>\<open>RegistryDiff\<close>, \<^verbatim>\<open>TransitionType\<close>, \<^verbatim>\<open>diff_between\<close> and
  \<^verbatim>\<open>tag_proto_objects_for_keep_delete_add\<close>), which is missing from the sources at
  hand. A change record identifies one object by kind and name, carries a transition tag
  among CREATE, DELETE and UPDATE and, for UPDATE, the ordered list of the fields that
  differ with their old and new values. A change set is an ordered sequence of change
  records.
\<close>

datatype transition_type = CREATE | DELETE | UPDATE

datatype 'p field_value =
    StringValue string
  | PayloadValue 'p
  | TimestampValue "timestamp option"
  | IntervalsValue "(timestamp \<times> timestamp) list"

record 'p property_diff =
  property_name :: string
  val_existing :: "'p field_value"
  val_declared :: "'p field_value"

record 'p fco_diff =
  fco_name :: string
  fco_type :: string
  current_fco :: "'p fco_proto option"
  new_fco :: "'p fco_proto option"
  fco_property_diffs :: "'p property_diff list"
  transition_type :: transition_type

definition FcoDiff ::
    "string \<Rightarrow> string \<Rightarrow> 'p fco_proto option \<Rightarrow> 'p fco_proto option \<Rightarrow> 'p property_diff list
     \<Rightarrow> transition_type \<Rightarrow> 'p fco_diff" where
  "FcoDiff nm ty cur new pds tt =
     \<lparr>fco_name = nm, fco_type = ty, current_fco = cur, new_fco = new,
      fco_property_diffs = pds, transition_type = tt\<rparr>"

type_synonym 'p registry_diff = "'p fco_diff list"

text \<open>
  Modelled from the spec: \<^verbatim>\<open>RegistryDiff.add_fco_diff\<close>. The comparison of a matched
  pair emits nothing when no field differs; what is emitted is appended to the change
  set.
\<close>

definition add_fco_diff :: "'p fco_diff option \<Rightarrow> 'p registry_diff \<Rightarrow> 'p registry_diff" where
  "add_fco_diff d diff = (case d of None \<Rightarrow> diff | Some x \<Rightarrow> diff @ [x])"

text \<open>
  Modelled from the spec: the structural field comparison \<^verbatim>\<open>diff_between\<close> of two
  messages. If no fields differ it emits nothing; otherwise it emits an UPDATE record
  listing each differing field with its old and new value.
\<close>

definition fields :: "'p fco_proto \<Rightarrow> (string \<times> 'p field_value) list" where
  "fields m =
     [(''name'', StringValue (spec_name m)),
      (''project'', StringValue (spec_project m)),
      (''payload'', PayloadValue (spec_payload m)),
      (''created_timestamp'', TimestampValue (meta_created_timestamp m)),
      (''materialization_intervals'', IntervalsValue (meta_materialization_intervals m))]"

definition property_diffs :: "'p fco_proto \<Rightarrow> 'p fco_proto \<Rightarrow> 'p property_diff list" where
  "property_diffs cur new =
     map (\<lambda>(a, b). \<lparr>property_name = fst a, val_existing = snd a, val_declared = snd b\<rparr>)
       (filter (\<lambda>(a, b). snd a \<noteq> snd b) (zip (fields cur) (fields new)))"

definition diff_between :: "'p fco_proto \<Rightarrow> 'p fco_proto \<Rightarrow> string \<Rightarrow> 'p fco_diff option" where
  "diff_between cur new object_type =
     (let pds = property_diffs cur new
      in if pds = [] then None
         else Some (FcoDiff (spec_name new) object_type (Some cur) (Some new) pds UPDATE))"

text \<open>
  Modelled from the spec: \<^verbatim>\<open>tag_proto_objects_for_keep_delete_add\<close>. The objects are
  partitioned by matching on name: present only in the proposed collection (to add),
  present only in the current one (to delete), present in both (to keep, taken from the
  proposed collection); each part is sorted by name, so that the order of the input
  collections does not matter.
\<close>

definition tag_proto_objects_for_keep_delete_add ::
    "'p fco_proto list \<Rightarrow> 'p fco_proto list
     \<Rightarrow> 'p fco_proto list \<times> 'p fco_proto list \<times> 'p fco_proto list" where
  "tag_proto_objects_for_keep_delete_add existing_objs desired_objs =
     (let existing_obj_names = set (map spec_name existing_objs);
          desired_obj_names = set (map spec_name desired_objs);
          objs_to_add =
            sort_key spec_name (filter (\<lambda>e. spec_name e \<notin> existing_obj_names) desired_objs);
          objs_to_keep =
            sort_key spec_name (filter (\<lambda>e. spec_name e \<in> existing_obj_names) desired_objs);
          objs_to_delete =
            sort_key spec_name (filter (\<lambda>e. spec_name e \<notin> desired_obj_names) existing_objs)
      in (objs_to_keep, objs_to_delete, objs_to_add))"

text \<open>
  \<^verbatim>\<open>Registry.diff_between\<close>. The loop over the kept objects looks the current object up
  by name alone and takes element \<open>0\<close> of the matches, which raises \<^verbatim>\<open>IndexError\<close> on
  an empty list.
\<close>

fun diff_objects_to_keep ::
    "string \<Rightarrow> 'p fco_proto list \<Rightarrow> 'p fco_proto list \<Rightarrow> 'p registry_diff
     \<Rightarrow> error + 'p registry_diff" where
  "diff_objects_to_keep object_type_str current_objs [] diff = Inr diff"
| "diff_objects_to_keep object_type_str current_objs (e # es) diff =
     (case filter (\<lambda>c. spec_name c = spec_name e) current_objs of
        [] \<Rightarrow> Inl IndexError
      | current_obj_proto # rest \<Rightarrow>
          diff_objects_to_keep object_type_str current_objs es
            (add_fco_diff (diff_between current_obj_proto e object_type_str) diff))"

definition diff_object_type ::
    "string \<Rightarrow> 'p fco_proto list \<Rightarrow> 'p fco_proto list \<Rightarrow> 'p registry_diff
     \<Rightarrow> error + 'p registry_diff" where
  "diff_object_type object_type_str current_objs new_objs diff =
     (case tag_proto_objects_for_keep_delete_add current_objs new_objs of
        (objects_to_keep, objects_to_delete, objects_to_add) \<Rightarrow>
          (let diff1 = foldl (\<lambda>d e. add_fco_diff
                          (Some (FcoDiff (spec_name e) object_type_str None (Some e) [] CREATE)) d)
                         diff objects_to_add;
               diff2 = foldl (\<lambda>d e. add_fco_diff
                          (Some (FcoDiff (spec_name e) object_type_str (Some e) None [] DELETE)) d)
                         diff1 objects_to_delete
           in diff_objects_to_keep object_type_str current_objs objects_to_keep diff2))"

definition attribute_to_object_type_str ::
    "(('p registry_proto \<Rightarrow> 'p fco_proto list) \<times> string) list" where
  "attribute_to_object_type_str =
     [(entities, ''entity''),
      (feature_views, ''feature view''),
      (feature_tables, ''feature table''),
      (on_demand_feature_views, ''on demand feature view''),
      (request_feature_views, ''request feature view''),
      (feature_services, ''feature service'')]"

fun diff_object_types ::
    "(('p registry_proto \<Rightarrow> 'p fco_proto list) \<times> string) list
     \<Rightarrow> 'p registry_proto \<Rightarrow> 'p registry_proto \<Rightarrow> 'p registry_diff \<Rightarrow> error + 'p registry_diff" where
  "diff_object_types [] current_registry new_registry diff = Inr diff"
| "diff_object_types ((object_type, s) # rest) current_registry new_registry diff =
     (case diff_object_type s (object_type current_registry) (object_type new_registry) diff of
        Inl e \<Rightarrow> Inl e
      | Inr diff' \<Rightarrow> diff_object_types rest current_registry new_registry diff')"

definition registry_diff_between ::
    "'p registry_proto \<Rightarrow> 'p registry_proto \<Rightarrow> error + 'p registry_diff" where
  "registry_diff_between current_registry new_registry =
     diff_object_types attribute_to_object_type_str current_registry new_registry []"

subsection \<open>Sequences of operations and the uniqueness of keys\<close>

datatype 'p operation =
    ApplyEntity "'p fco" string bool timestamp
  | ApplyFeatureService "'p fco" string bool timestamp
  | ApplyFeatureView "'p base_feature_view" string bool timestamp
  | ApplyMaterialization "'p base_feature_view" string timestamp timestamp bool timestamp
  | DeleteEntity string string bool timestamp
  | DeleteFeatureService string string bool timestamp
  | DeleteFeatureView string string bool timestamp

text \<open>
  \<open>exec_op\<close> is one call of the method; the registry afterwards is kept whether the call
  returned or raised, since a caller may catch the exception and go on.
\<close>

fun exec_op ::
    "('p fco \<Rightarrow> bool) \<Rightarrow> ('p base_feature_view \<Rightarrow> bool)
     \<Rightarrow> ('p base_feature_view \<Rightarrow> 'p base_feature_view \<Rightarrow> bool)
     \<Rightarrow> 'p operation \<Rightarrow> 'p registry \<Rightarrow> 'p registry" where
  "exec_op is_valid ensure_valid eq (ApplyEntity e project c now) r =
     snd (apply_entity is_valid e project c now r)"
| "exec_op is_valid ensure_valid eq (ApplyFeatureService fs project c now) r =
     snd (apply_feature_service fs project c now r)"
| "exec_op is_valid ensure_valid eq (ApplyFeatureView fv project c now) r =
     snd (apply_feature_view ensure_valid eq fv project c now r)"
| "exec_op is_valid ensure_valid eq (ApplyMaterialization fv project s e c now) r =
     snd (apply_materialization fv project s e c now r)"
| "exec_op is_valid ensure_valid eq (DeleteEntity nm project c now) r =
     snd (delete_entity nm project c now r)"
| "exec_op is_valid ensure_valid eq (DeleteFeatureService nm project c now) r =
     snd (delete_feature_service nm project c now r)"
| "exec_op is_valid ensure_valid eq (DeleteFeatureView nm project c now) r =
     snd (delete_feature_view nm project c now r)"

fun exec_ops ::
    "('p fco \<Rightarrow> bool) \<Rightarrow> ('p base_feature_view \<Rightarrow> bool)
     \<Rightarrow> ('p base_feature_view \<Rightarrow> 'p base_feature_view \<Rightarrow> bool)
     \<Rightarrow> 'p operation list \<Rightarrow> 'p registry \<Rightarrow> 'p registry" where
  "exec_ops is_valid ensure_valid eq [] r = r"
| "exec_ops is_valid ensure_valid eq (op # ops) r =
     exec_ops is_valid ensure_valid eq ops (exec_op is_valid ensure_valid eq op r)"

definition key :: "'p fco_proto \<Rightarrow> string \<times> string" where
  "key m = (spec_name m, spec_project m)"

definition unique_keys :: "'p fco_proto list \<Rightarrow> bool" where
  "unique_keys xs = distinct (map key xs)"

definition snapshot_unique :: "'p registry_proto \<Rightarrow> bool" where
  "snapshot_unique reg =
     (unique_keys (entities reg) \<and> unique_keys (feature_views reg)
      \<and> unique_keys (on_demand_feature_views reg) \<and> unique_keys (request_feature_views reg)
      \<and> unique_keys (feature_services reg))"

text \<open>
  The invariant of a registry: the cached snapshot and the stored one, where there is
  one, have unique keys. The stored one matters because a method may reload the cache
  from the store.
\<close>

definition registry_unique :: "'p registry \<Rightarrow> bool" where
  "registry_unique r =
     ((case cached_registry_proto r of None \<Rightarrow> True | Some reg \<Rightarrow> snapshot_unique reg)
      \<and> (case content (registry_store r) of None \<Rightarrow> True | Some reg \<Rightarrow> snapshot_unique reg))"

subsection \<open>Names used by the feature views, and example values\<close>



text \<open>
  \<open>stored_first nm project xs ys m zs\<close>: the collection \<open>xs\<close> is \<open>ys\<close>, then \<open>m\<close>, then
  \<open>zs\<close>, and \<open>m\<close> is its first entry with name \<open>nm\<close> and project \<open>project\<close> (its only
  one when the keys are unique).
\<close>

definition stored_first ::
    "string \<Rightarrow> string \<Rightarrow> 'p fco_proto list \<Rightarrow> 'p fco_proto list \<Rightarrow> 'p fco_proto
     \<Rightarrow> 'p fco_proto list \<Rightarrow> bool" where
  "stored_first nm project xs ys m zs =
     (xs = ys @ m # zs \<and> matches nm project m \<and> (\<forall>y\<in>set ys. \<not> matches nm project y))"

text \<open>
  \<open>entries_sorted_by_name project coll out\<close>: the list \<open>out\<close> holds exactly the entries
  of the collection \<open>coll\<close> whose project is \<open>project\<close>, each as often as the collection
  does, in the order of their names.
\<close>

definition entries_sorted_by_name ::
    "string \<Rightarrow> 'p fco_proto list \<Rightarrow> 'p fco_proto list \<Rightarrow> bool" where
  "entries_sorted_by_name project coll out =
     (mset out = mset (filter (\<lambda>m. spec_project m = project) coll)
      \<and> sorted (map spec_name out))"

text \<open>
  \<open>same_name_same_entry xs\<close>: two entries of the collection with the same name are the
  same entry; in particular, no name is used in two projects.
\<close>

definition same_name_same_entry :: "'p fco_proto list \<Rightarrow> bool" where
  "same_name_same_entry xs = (\<forall>x\<in>set xs. \<forall>y\<in>set xs. spec_name x = spec_name y \<longrightarrow> x = y)"

text \<open>
  Example values: a message with a name, a project and a payload and nothing else set,
  an object with a name and a payload, and a registry whose cache holds a given
  snapshot, loaded at instant \<open>0\<close> with time-to-live \<open>0\<close>, over an empty store.
\<close>

definition mk_proto :: "string \<Rightarrow> string \<Rightarrow> nat \<Rightarrow> nat fco_proto" where
  "mk_proto nm project pl =
     \<lparr>spec_name = nm, spec_project = project, spec_payload = pl,
      meta_created_timestamp = None, meta_materialization_intervals = []\<rparr>"

definition mk_fco :: "string \<Rightarrow> nat \<Rightarrow> nat fco" where
  "mk_fco nm pl = \<lparr>name = nm, payload = pl, created_timestamp = None,
                   materialization_intervals = []\<rparr>"

definition mk_feature_view :: "fv_class \<Rightarrow> string \<Rightarrow> nat \<Rightarrow> nat base_feature_view" where
  "mk_feature_view c nm pl = \<lparr>name = nm, payload = pl, created_timestamp = None,
                   materialization_intervals = [], fv_class = c\<rparr>"

definition mk_registry :: "nat registry_proto \<Rightarrow> nat registry" where
  "mk_registry reg =
     \<lparr>cached_registry_proto = Some reg, cached_registry_proto_created = Some 0,
      cached_registry_proto_ttl = 0, registry_store = \<lparr>content = None, loads = 0\<rparr>\<rparr>"

section \<open>Properties\<close>

subsection \<open>The cache\<close>




lemma get_registry_proto_load:
  "\<not> allow_cache \<or> expired now r \<Longrightarrow> content (registry_store r) = Some p \<Longrightarrow>
   get_registry_proto now allow_cache r =
     (Inr p, r\<lparr>cached_registry_proto := Some p, cached_registry_proto_created := Some now,
               registry_store := (registry_store r)\<lparr>loads := Suc (loads (registry_store r))\<rparr>\<rparr>)"
  by (auto simp: get_registry_proto_def store_get_registry_proto_def expired_def
           split: option.splits bool.splits)

lemma get_registry_proto_not_found:
  "\<not> allow_cache \<or> expired now r \<Longrightarrow> content (registry_store r) = None \<Longrightarrow>
   get_registry_proto now allow_cache r =
     (Inl FileNotFoundError,
      r\<lparr>registry_store := (registry_store r)\<lparr>loads := Suc (loads (registry_store r))\<rparr>\<rparr>)"
  by (auto simp: get_registry_proto_def store_get_registry_proto_def expired_def
           split: option.splits bool.splits)



lemma prepare_not_found:
  "expired now r \<Longrightarrow> content (registry_store r) = None \<Longrightarrow>
   prepare_registry_for_changes now r =
     (Inr (RegistryProto\<lparr>registry_schema_version := REGISTRY_SCHEMA_VERSION\<rparr>),
      r\<lparr>registry_store := (registry_store r)\<lparr>loads := Suc (loads (registry_store r))\<rparr>,
        cached_registry_proto :=
          Some (RegistryProto\<lparr>registry_schema_version := REGISTRY_SCHEMA_VERSION\<rparr>),
        cached_registry_proto_created := Some now\<rparr>)"
  by (simp add: prepare_registry_for_changes_def get_registry_proto_not_found Let_def)




text \<open>
  Claim C5. When the cache has to be loaded and the store has nothing,
  \<^verbatim>\<open>_prepare_registry_for_changes\<close> does not raise: the cache becomes a fresh empty
  snapshot with schema version \<open>''1''\<close> and a mutating method (here \<^verbatim>\<open>apply_entity\<close>)
  goes on with it; \<^verbatim>\<open>_initialize_registry\<close> does not raise either and writes such a
  snapshot to the store. Everywhere else the \<^verbatim>\<open>FileNotFoundError\<close> of the store
  reaches the caller: from \<^verbatim>\<open>_get_registry_proto\<close> itself, which leaves the cache as
  it was, and through \<^verbatim>\<open>get_entity\<close>, \<^verbatim>\<open>list_entities\<close> and \<^verbatim>\<open>refresh\<close>.
\<close>

theorem prepare_registry_for_changes_not_found:
  "(expired now r \<and> content (registry_store r) = None \<longrightarrow>
      fst (prepare_registry_for_changes now r)
        = Inr (RegistryProto\<lparr>registry_schema_version := ''1''\<rparr>)
      \<and> cached_registry_proto (snd (prepare_registry_for_changes now r))
           = Some (RegistryProto\<lparr>registry_schema_version := ''1''\<rparr>)
      \<and> (is_valid entity \<longrightarrow>
           fst (apply_entity is_valid entity project commit_flag now r) = Inr ()
           \<and> cached_registry_proto (snd (apply_entity is_valid entity project commit_flag now r))
               = Some (RegistryProto\<lparr>registry_schema_version := ''1'',
                                      entities := [(to_proto entity)\<lparr>spec_project := project\<rparr>]\<rparr>))
      \<and> fst (initialize_registry now r) = Inr ()
      \<and> content (registry_store (snd (initialize_registry now r)))
           = Some (RegistryProto\<lparr>registry_schema_version := ''1''\<rparr>))
   \<and> ((\<not> allow_cache \<or> expired now r) \<and> content (registry_store r) = None \<longrightarrow>
      fst (get_registry_proto now allow_cache r) = Inl FileNotFoundError
      \<and> cached_registry_proto (snd (get_registry_proto now allow_cache r))
           = cached_registry_proto r
      \<and> fst (get_entity nm project now allow_cache r) = Inl FileNotFoundError
      \<and> fst (list_entities project now allow_cache r) = Inl FileNotFoundError)
   \<and> (content (registry_store r) = None \<longrightarrow> fst (refresh now r) = Inl FileNotFoundError)"
  by (simp add: prepare_not_found get_registry_proto_not_found apply_entity_def Let_def
        maybe_commit_def commit_def REGISTRY_SCHEMA_VERSION_def RegistryProto_def
        initialize_registry_def get_entity_def list_entities_def refresh_def
        update_registry_proto_def)

theorem prepare_registry_for_changes_not_found_witness:
  "fst (prepare_registry_for_changes 5
     \<lparr>cached_registry_proto = None, cached_registry_proto_created = None,
      cached_registry_proto_ttl = 60,
      registry_store = \<lparr>content = (None :: unit registry_proto option), loads = 0\<rparr>\<rparr>)
     = Inr (RegistryProto\<lparr>registry_schema_version := ''1''\<rparr>)
   \<and> fst (refresh 5
     \<lparr>cached_registry_proto = None, cached_registry_proto_created = None,
      cached_registry_proto_ttl = 60,
      registry_store = \<lparr>content = (None :: unit registry_proto option), loads = 0\<rparr>\<rparr>)
     = Inl FileNotFoundError
   \<and> fst (get_registry_proto 5 True
     \<lparr>cached_registry_proto = None, cached_registry_proto_created = None,
      cached_registry_proto_ttl = 60,
      registry_store = \<lparr>content = (None :: unit registry_proto option), loads = 0\<rparr>\<rparr>)
     = Inl FileNotFoundError"
  using prepare_registry_for_changes_not_found
    [where r = "\<lparr>cached_registry_proto = None, cached_registry_proto_created = None,
                 cached_registry_proto_ttl = 60,
                 registry_store = \<lparr>content = (None :: unit registry_proto option), loads = 0\<rparr>\<rparr>"
       and now = 5 and allow_cache = True]
  by (simp add: expired_def)

subsection \<open>Preparing for changes, and the loops\<close>

lemma prepare_cases:
  "\<exists>reg r1. prepare_registry_for_changes now r = (Inr reg, r1)
     \<and> cached_registry_proto r1 = Some reg"
  by (auto simp: prepare_registry_for_changes_def get_registry_proto_def
        store_get_registry_proto_def Let_def split: option.splits bool.splits prod.splits sum.splits)

lemma prepare_fresh:
  "\<not> expired now r \<Longrightarrow> prepare_registry_for_changes now r = (Inr reg, r1) \<Longrightarrow> r1 = r"
  by (auto simp: prepare_registry_for_changes_def get_registry_proto_def expired_def
        split: option.splits bool.splits prod.splits sum.splits)

lemma prepare_cached:
  "prepare_registry_for_changes now r = (Inr reg, r1) \<Longrightarrow> cached_registry_proto r1 = Some reg"
  using prepare_cases[of now r] by auto

lemma prepare_mk_registry: "prepare_registry_for_changes now (mk_registry reg) = (Inr reg, mk_registry reg)"
  by (simp add: prepare_registry_for_changes_def get_registry_proto_def expired_def mk_registry_def)

lemma find_first_None: "(find_first P xs = None) = (\<forall>x\<in>set xs. \<not> P x)"
  by (induction xs) (auto split: option.splits)

lemma find_first_Some:
  "find_first P xs = Some (idx, x) \<Longrightarrow>
   idx < length xs \<and> xs ! idx = x \<and> P x \<and> (\<forall>j<idx. \<not> P (xs ! j))"
proof (induction xs arbitrary: idx)
  case Nil
  then show ?case by simp
next
  case (Cons y ys)
  show ?case
  proof (cases "P y")
    case True
    with Cons.prems show ?thesis by simp
  next
    case False
    with Cons.prems obtain i where i: "find_first P ys = Some (i, x)" "idx = Suc i"
      by (auto split: option.splits)
    from Cons.IH[OF i(1)] False i(2) show ?thesis
      by (auto simp: less_Suc_eq_0_disj)
  qed
qed

lemma find_first_ex: "(\<exists>x\<in>set xs. P x) \<Longrightarrow> \<exists>idx x. find_first P xs = Some (idx, x)"
  using find_first_None[of P xs] by (cases "find_first P xs") auto

subsection \<open>Deleting\<close>



subsection \<open>The name conflict of feature views\<close>







subsection \<open>Replacing a stored entry\<close>

lemma name_stamp_created [simp]: "name (stamp_created now fv) = name fv"
  by (simp add: stamp_created_def)

lemma fv_class_stamp_created [simp]: "fv_class (stamp_created now fv) = fv_class fv"
  by (simp add: stamp_created_def)

lemma mk_registry_cached [simp]:
  "(mk_registry reg)\<lparr>cached_registry_proto := Some reg'\<rparr> = mk_registry reg'"
  by (simp add: mk_registry_def)

lemma find_first_append:
  "\<forall>y\<in>set ys. \<not> P y \<Longrightarrow> P m \<Longrightarrow> find_first P (ys @ m # zs) = Some (length ys, m)"
  by (induction ys) auto

lemma delete_at_append [simp]: "delete_at (length ys) (ys @ m # zs) = ys @ zs"
  by (simp add: delete_at_def)

lemma delete_matching_no_break_none:
  "\<forall>j. idx \<le> j \<and> j < length xs \<longrightarrow> \<not> P (xs ! j) \<Longrightarrow> delete_matching_no_break P idx xs = xs"
proof (induction P idx xs rule: delete_matching_no_break.induct)
  case (1 P idx xs)
  show ?case
  proof (cases "idx < length xs")
    case True
    with "1.prems" have np: "\<not> P (xs ! idx)" by simp
    from "1.prems" have "\<forall>j. Suc idx \<le> j \<and> j < length xs \<longrightarrow> \<not> P (xs ! j)" by simp
    from "1.IH"(2)[OF True np this] True np show ?thesis
      by (subst delete_matching_no_break.simps) simp
  next
    case False
    then show ?thesis by (subst delete_matching_no_break.simps) simp
  qed
qed

lemma delete_matching_no_break_one:
  "idx \<le> length ys \<Longrightarrow> \<forall>j. idx \<le> j \<and> j < length ys \<longrightarrow> \<not> P (ys ! j) \<Longrightarrow> P m \<Longrightarrow>
   \<forall>z\<in>set zs. \<not> P z \<Longrightarrow> delete_matching_no_break P idx (ys @ m # zs) = ys @ zs"
proof (induction "length ys - idx" arbitrary: idx)
  case 0
  then have idx: "idx = length ys" by simp
  have "\<forall>j. Suc idx \<le> j \<and> j < length (ys @ zs) \<longrightarrow> \<not> P ((ys @ zs) ! j)"
    using 0(5) idx by (auto simp: nth_append)
  then have "delete_matching_no_break P (Suc idx) (ys @ zs) = ys @ zs"
    by (rule delete_matching_no_break_none)
  with idx 0(4) show ?case
    by (subst delete_matching_no_break.simps) simp
next
  case (Suc k)
  then have lt: "idx < length ys" by simp
  with Suc.prems have np: "\<not> P (ys ! idx)" by simp
  have "delete_matching_no_break P (Suc idx) (ys @ m # zs) = ys @ zs"
    using Suc.hyps(2) Suc.prems lt by (intro Suc.hyps(1)) auto
  with lt np show ?case
    by (subst delete_matching_no_break.simps) (simp add: nth_append)
qed

lemma find_first_stored_first:
  "stored_first nm project xs ys m zs \<Longrightarrow> find_first (matches nm project) xs = Some (length ys, m)"
  by (simp add: stored_first_def find_first_append)

lemma apply_feature_view_identical:
  assumes "prepare_registry_for_changes now r = (Inr reg, r1)"
    and "ensure_valid fv"
    and "stored_first (name fv) project (existing_feature_views_of_same_type (fv_class fv) reg) ys m zs"
    and "eq (fv_from_proto (fv_class fv) m) (stamp_created now fv)"
  shows "snd (apply_feature_view ensure_valid eq fv project commit_flag now r) = r1"
proof -
  note f = find_first_stored_first[OF assms(3)]
  have n: "spec_name ((to_proto (stamp_created now fv))\<lparr>spec_project := project\<rparr>) = name fv"
    by (simp add: to_proto_def)
  show ?thesis
    unfolding apply_feature_view_def Let_def n
    using assms(1,2,4) f
    by (cases "check_conflicting_feature_view_names reg (stamp_created now fv)") simp_all
qed

lemma apply_entity_replaces:
  assumes "prepare_registry_for_changes now r = (Inr reg, r1)"
    and "is_valid e"
    and "stored_first (name e) project (entities reg) ys m zs"
  shows "cached_registry_proto (snd (apply_entity is_valid e project commit_flag now r))
          = Some (reg\<lparr>entities := ys @ zs @ [(to_proto e)\<lparr>spec_project := project\<rparr>]\<rparr>)"
proof -
  note f = find_first_stored_first[OF assms(3)]
  have n: "spec_name ((to_proto e)\<lparr>spec_project := project\<rparr>) = name e"
    by (simp add: to_proto_def)
  have xs: "entities reg = ys @ m # zs" using assms(3) by (simp add: stored_first_def)
  show ?thesis
    unfolding apply_entity_def Let_def n
    using assms(1,2) f by (simp add: xs maybe_commit_def commit_def)
qed

lemma apply_feature_service_replaces:
  assumes "prepare_registry_for_changes now r = (Inr reg, r1)"
    and "stored_first (name fs) project (feature_services reg) ys m zs"
    and "\<forall>z\<in>set zs. \<not> matches (name fs) project z"
  shows "cached_registry_proto (snd (apply_feature_service fs project commit_flag now r))
          = Some (reg\<lparr>feature_services := ys @ zs @ [(to_proto fs)\<lparr>spec_project := project\<rparr>]\<rparr>)"
proof -
  have n: "spec_name ((to_proto fs)\<lparr>spec_project := project\<rparr>) = name fs"
    by (simp add: to_proto_def)
  from assms(2) have xs: "feature_services reg = ys @ m # zs"
    and pm: "matches (name fs) project m"
    and ny: "\<forall>y\<in>set ys. \<not> matches (name fs) project y"
    by (simp_all add: stored_first_def)
  from ny have nj: "\<forall>j. 0 \<le> j \<and> j < length ys \<longrightarrow> \<not> matches (name fs) project (ys ! j)"
    by simp
  have d: "delete_matching_no_break (matches (name fs) project) 0 (feature_services reg) = ys @ zs"
    unfolding xs by (rule delete_matching_no_break_one[OF _ nj pm assms(3)]) simp
  show ?thesis
    unfolding apply_feature_service_def Let_def
    using assms(1) by (simp add: n d maybe_commit_def commit_def)
qed

subsection \<open>Applying a feature view whose name is taken\<close>







subsection \<open>Applying an object that is already stored\<close>

text \<open>
  Claim C1, as stated, fails for entities (and feature services): \<^verbatim>\<open>apply_entity\<close>
  compares nothing, it deletes the stored entry and appends the incoming one. Applying
  an entity whose message is the stored one moves it to the end of the collection.
\<close>

theorem apply_identical_counterexample:
  "(to_proto (mk_fco ''a'' 1))\<lparr>spec_project := ''p''\<rparr> = mk_proto ''a'' ''p'' 1
   \<and> apply_entity (\<lambda>e. True) (mk_fco ''a'' 1) ''p'' False 0
      (mk_registry (RegistryProto\<lparr>entities := [mk_proto ''a'' ''p'' 1, mk_proto ''b'' ''p'' 2]\<rparr>))
   = (Inr (),
      mk_registry (RegistryProto\<lparr>entities := [mk_proto ''b'' ''p'' 2, mk_proto ''a'' ''p'' 1]\<rparr>))
   \<and> [mk_proto ''b'' ''p'' 2, mk_proto ''a'' ''p'' 1] \<noteq> [mk_proto ''a'' ''p'' 1, mk_proto ''b'' ''p'' 2]"
  by (simp add: apply_entity_def prepare_mk_registry Let_def to_proto_def mk_fco_def
        mk_proto_def matches_def maybe_commit_def delete_at_def RegistryProto_def)

text \<open>
  Claim C1, amended. Let \<open>reg\<close> be the working snapshot and \<open>r1\<close> the registry that
  \<^verbatim>\<open>_prepare_registry_for_changes\<close> leaves. For a feature view of any of the three
  classes: if the object is valid and the entry stored under its name and project in the
  collection of its class compares equal to it, \<^verbatim>\<open>apply_feature_view\<close> mutates
  nothing: the registry afterwards is \<open>r1\<close>, whose cache is \<open>reg\<close>, and \<open>r1\<close> is the
  registry before the call when the cache is fresh. For an entity or a feature service
  there is no comparison: the stored entry is removed and the incoming one is appended
  at the end of the collection (for a feature service, when no later entry has the same
  name and project).
\<close>

theorem apply_identical:
  assumes "prepare_registry_for_changes now r = (Inr reg, r1)"
  shows "(ensure_valid fv
           \<and> stored_first (name fv) project (existing_feature_views_of_same_type (fv_class fv) reg)
                ys m zs
           \<and> eq (fv_from_proto (fv_class fv) m) (stamp_created now fv) \<longrightarrow>
            snd (apply_feature_view ensure_valid eq fv project commit_flag now r) = r1
            \<and> cached_registry_proto r1 = Some reg \<and> (\<not> expired now r \<longrightarrow> r1 = r))
       \<and> (is_valid e \<and> stored_first (name e) project (entities reg) ys' m' zs' \<longrightarrow>
            cached_registry_proto (snd (apply_entity is_valid e project commit_flag now r))
              = Some (reg\<lparr>entities := ys' @ zs' @ [(to_proto e)\<lparr>spec_project := project\<rparr>]\<rparr>))
       \<and> (stored_first (name fs) project (feature_services reg) ys'' m'' zs''
           \<and> (\<forall>z\<in>set zs''. \<not> matches (name fs) project z) \<longrightarrow>
            cached_registry_proto (snd (apply_feature_service fs project commit_flag now r))
              = Some (reg\<lparr>feature_services :=
                         ys'' @ zs'' @ [(to_proto fs)\<lparr>spec_project := project\<rparr>]\<rparr>))"
proof (intro conjI impI; (elim conjE)?)
  assume "ensure_valid fv"
    and "stored_first (name fv) project (existing_feature_views_of_same_type (fv_class fv) reg)
           ys m zs"
    and "eq (fv_from_proto (fv_class fv) m) (stamp_created now fv)"
  then show "snd (apply_feature_view ensure_valid eq fv project commit_flag now r) = r1"
    by (rule apply_feature_view_identical[OF assms])
next
  show "cached_registry_proto r1 = Some reg" by (rule prepare_cached[OF assms])
next
  assume "\<not> expired now r"
  then show "r1 = r" by (rule prepare_fresh[OF _ assms])
next
  assume "is_valid e" and "stored_first (name e) project (entities reg) ys' m' zs'"
  then show "cached_registry_proto (snd (apply_entity is_valid e project commit_flag now r))
              = Some (reg\<lparr>entities := ys' @ zs' @ [(to_proto e)\<lparr>spec_project := project\<rparr>]\<rparr>)"
    by (rule apply_entity_replaces[OF assms])
next
  assume "stored_first (name fs) project (feature_services reg) ys'' m'' zs''"
    and "\<forall>z\<in>set zs''. \<not> matches (name fs) project z"
  then show "cached_registry_proto (snd (apply_feature_service fs project commit_flag now r))
              = Some (reg\<lparr>feature_services :=
                         ys'' @ zs'' @ [(to_proto fs)\<lparr>spec_project := project\<rparr>]\<rparr>)"
    by (rule apply_feature_service_replaces[OF assms])
qed

theorem apply_identical_witness:
  "snd (apply_feature_view (\<lambda>fv. True) (\<lambda>a b. payload a = payload b)
      (mk_feature_view FeatureView ''x'' 1) ''p'' True 7
      (mk_registry (RegistryProto\<lparr>entities := [mk_proto ''a'' ''p'' 1, mk_proto ''b'' ''p'' 2],
                                   feature_views := [mk_proto ''x'' ''p'' 1],
                                   feature_services := [mk_proto ''s'' ''p'' 4]\<rparr>)))
     = mk_registry (RegistryProto\<lparr>entities := [mk_proto ''a'' ''p'' 1, mk_proto ''b'' ''p'' 2],
                                   feature_views := [mk_proto ''x'' ''p'' 1],
                                   feature_services := [mk_proto ''s'' ''p'' 4]\<rparr>)
   \<and> cached_registry_proto (snd (apply_entity (\<lambda>e. True) (mk_fco ''a'' 1) ''p'' False 7
      (mk_registry (RegistryProto\<lparr>entities := [mk_proto ''a'' ''p'' 1, mk_proto ''b'' ''p'' 2],
                                   feature_views := [mk_proto ''x'' ''p'' 1],
                                   feature_services := [mk_proto ''s'' ''p'' 4]\<rparr>))))
     = Some (RegistryProto\<lparr>entities := [mk_proto ''b'' ''p'' 2, mk_proto ''a'' ''p'' 1],
                            feature_views := [mk_proto ''x'' ''p'' 1],
                            feature_services := [mk_proto ''s'' ''p'' 4]\<rparr>)
   \<and> cached_registry_proto (snd (apply_feature_service (mk_fco ''s'' 5) ''p'' False 7
      (mk_registry (RegistryProto\<lparr>entities := [mk_proto ''a'' ''p'' 1, mk_proto ''b'' ''p'' 2],
                                   feature_views := [mk_proto ''x'' ''p'' 1],
                                   feature_services := [mk_proto ''s'' ''p'' 4]\<rparr>))))
     = Some (RegistryProto\<lparr>entities := [mk_proto ''a'' ''p'' 1, mk_proto ''b'' ''p'' 2],
                            feature_views := [mk_proto ''x'' ''p'' 1],
                            feature_services := [mk_proto ''s'' ''p'' 5]\<rparr>)"
  using apply_identical [OF prepare_mk_registry,
      where ensure_valid = "\<lambda>fv. True" and fv = "mk_feature_view FeatureView ''x'' 1"
        and eq = "\<lambda>a b. payload a = payload b" and project = "''p''" and now = 7
        and ys = "[]" and m = "mk_proto ''x'' ''p'' 1" and zs = "[]"
        and is_valid = "\<lambda>e. True" and e = "mk_fco ''a'' 1"
        and ys' = "[]" and m' = "mk_proto ''a'' ''p'' 1" and zs' = "[mk_proto ''b'' ''p'' 2]"
        and fs = "mk_fco ''s'' 5"
        and ys'' = "[]" and m'' = "mk_proto ''s'' ''p'' 4" and zs'' = "[]"
        and reg = "RegistryProto\<lparr>entities := [mk_proto ''a'' ''p'' 1, mk_proto ''b'' ''p'' 2],
                                  feature_views := [mk_proto ''x'' ''p'' 1],
                                  feature_services := [mk_proto ''s'' ''p'' 4]\<rparr>"]
  by (simp add: stored_first_def matches_def mk_feature_view_def mk_fco_def mk_proto_def
        fv_from_proto_def stamp_created_def to_proto_def RegistryProto_def)

subsection \<open>Materialization intervals\<close>

lemma prepare_committed:
  "cached_registry_proto r = Some s \<Longrightarrow> content (registry_store r) = Some s \<Longrightarrow>
   \<exists>r1. prepare_registry_for_changes now r = (Inr s, r1)"
  by (auto simp: prepare_registry_for_changes_def get_registry_proto_def
        store_get_registry_proto_def split: bool.splits)

lemma materialized_proto:
  "spec_project m = project \<Longrightarrow>
   (to_proto ((fv_from_proto FeatureView m)
      \<lparr>materialization_intervals :=
         materialization_intervals (fv_from_proto FeatureView m) @ [iv]\<rparr>))\<lparr>spec_project := project\<rparr>
   = m\<lparr>meta_materialization_intervals := meta_materialization_intervals m @ [iv]\<rparr>"
  by (simp add: to_proto_def fv_from_proto_def)

lemma apply_materialization_found:
  assumes "prepare_registry_for_changes now r = (Inr reg, r1)"
    and "stored_first (name fv) project (feature_views reg) ys m zs"
  shows "apply_materialization fv project s e commit_flag now r
          = (Inr (), maybe_commit commit_flag
               (r1\<lparr>cached_registry_proto := Some (reg\<lparr>feature_views := ys @ zs @
                  [m\<lparr>meta_materialization_intervals :=
                       meta_materialization_intervals m @ [(s, e)]\<rparr>]\<rparr>)\<rparr>))"
proof -
  note f = find_first_stored_first[OF assms(2)]
  from assms(2) have xs: "feature_views reg = ys @ m # zs" and p: "spec_project m = project"
    by (simp_all add: stored_first_def matches_def)
  show ?thesis
    unfolding apply_materialization_def Let_def
    using assms(1) f by (simp add: materialized_proto[OF p] xs)
qed

lemma apply_materialization_missing:
  assumes "prepare_registry_for_changes now r = (Inr reg, r1)"
    and "\<forall>m\<in>set (feature_views reg). \<not> matches (name fv) project m"
  shows "apply_materialization fv project s e commit_flag now r
          = (Inl (FeatureViewNotFoundException (name fv) project), r1)"
  using assms find_first_None[of "matches (name fv) project" "feature_views reg"]
  by (simp add: apply_materialization_def)

lemma maybe_commit_True:
  "cached_registry_proto (maybe_commit True (r\<lparr>cached_registry_proto := Some s\<rparr>)) = Some s
   \<and> content (registry_store (maybe_commit True (r\<lparr>cached_registry_proto := Some s\<rparr>))) = Some s"
  by (simp add: maybe_commit_def commit_def update_registry_proto_def)

lemma apply_materialization_committed:
  assumes "prepare_registry_for_changes now r = (Inr reg, r1)"
    and "stored_first (name fv) project (feature_views reg) ys m zs"
  shows "cached_registry_proto (snd (apply_materialization fv project s e True now r))
           = Some (reg\<lparr>feature_views := ys @ zs @
                  [m\<lparr>meta_materialization_intervals :=
                       meta_materialization_intervals m @ [(s, e)]\<rparr>]\<rparr>)"
    and "content (registry_store (snd (apply_materialization fv project s e True now r)))
           = Some (reg\<lparr>feature_views := ys @ zs @
                  [m\<lparr>meta_materialization_intervals :=
                       meta_materialization_intervals m @ [(s, e)]\<rparr>]\<rparr>)"
  by (simp_all add: apply_materialization_found[OF assms] maybe_commit_True)

lemma stored_first_last:
  "stored_first nm project (ys @ m # zs) ys m zs \<Longrightarrow> \<forall>z\<in>set zs. \<not> matches nm project z \<Longrightarrow>
   spec_name m' = spec_name m \<Longrightarrow> spec_project m' = spec_project m \<Longrightarrow>
   stored_first nm project (ys @ zs @ [m']) (ys @ zs) m' []"
  by (auto simp: stored_first_def matches_def)

lemma apply_materialization_again:
  assumes "cached_registry_proto r = Some reg" and "content (registry_store r) = Some reg"
    and "feature_views reg = ys @ [m]"
    and "stored_first (name fv) project (ys @ [m]) ys m []"
  shows "cached_registry_proto (snd (apply_materialization fv project s e True now r))
           = Some (reg\<lparr>feature_views := ys @
                  [m\<lparr>meta_materialization_intervals :=
                       meta_materialization_intervals m @ [(s, e)]\<rparr>]\<rparr>)
       \<and> content (registry_store (snd (apply_materialization fv project s e True now r)))
           = Some (reg\<lparr>feature_views := ys @
                  [m\<lparr>meta_materialization_intervals :=
                       meta_materialization_intervals m @ [(s, e)]\<rparr>]\<rparr>)"
proof -
  from prepare_committed[OF assms(1,2)] obtain r1 where
    p: "prepare_registry_for_changes now r = (Inr reg, r1)" by blast
  from assms(3,4) have "stored_first (name fv) project (feature_views reg) ys m []" by simp
  from apply_materialization_committed[OF p this, of s e] show ?thesis by simp
qed

text \<open>
  Claim C7. Let \<open>reg\<close> be the working snapshot and \<open>r1\<close> the registry that
  \<^verbatim>\<open>_prepare_registry_for_changes\<close> leaves. \<^verbatim>\<open>apply_materialization\<close> raises
  \<^verbatim>\<open>FeatureViewNotFoundException\<close>, leaving \<open>r1\<close>, when no feature view has the name
  and project. Otherwise it returns, and the feature view found is stored again at the
  end of the collection with the interval appended at the end of its list, the earlier
  intervals kept as they were, whatever the new interval is. Three successive committed
  calls with \<open>(t0, t1)\<close>, \<open>(t1, t2)\<close> and \<open>(t2, t3)\<close>, at any instants, on a feature view
  that is the only one of its name and project leave its list as the earlier intervals
  followed by these three in this order.
\<close>

theorem apply_materialization_appends:
  assumes "prepare_registry_for_changes now r = (Inr reg, r1)"
  shows "((\<forall>m\<in>set (feature_views reg). \<not> matches (name fv) project m) \<longrightarrow>
            apply_materialization fv project start_date end_date commit_flag now r
              = (Inl (FeatureViewNotFoundException (name fv) project), r1))
       \<and> (stored_first (name fv) project (feature_views reg) ys m zs \<longrightarrow>
            fst (apply_materialization fv project start_date end_date commit_flag now r) = Inr ()
            \<and> cached_registry_proto
                 (snd (apply_materialization fv project start_date end_date commit_flag now r))
               = Some (reg\<lparr>feature_views := ys @ zs @
                   [m\<lparr>meta_materialization_intervals :=
                       meta_materialization_intervals m @ [(start_date, end_date)]\<rparr>]\<rparr>))
       \<and> (stored_first (name fv) project (feature_views reg) ys m zs
            \<and> (\<forall>z\<in>set zs. \<not> matches (name fv) project z) \<longrightarrow>
            cached_registry_proto
              (snd (apply_materialization fv project t2 t3 True now3
                (snd (apply_materialization fv project t1 t2 True now2
                  (snd (apply_materialization fv project t0 t1 True now r))))))
              = Some (reg\<lparr>feature_views := ys @ zs @
                   [m\<lparr>meta_materialization_intervals :=
                       meta_materialization_intervals m @ [(t0, t1), (t1, t2), (t2, t3)]\<rparr>]\<rparr>))"
proof (intro conjI impI; (elim conjE)?)
  assume "\<forall>m\<in>set (feature_views reg). \<not> matches (name fv) project m"
  then show "apply_materialization fv project start_date end_date commit_flag now r
              = (Inl (FeatureViewNotFoundException (name fv) project), r1)"
    by (rule apply_materialization_missing[OF assms])
next
  assume a: "stored_first (name fv) project (feature_views reg) ys m zs"
  show "fst (apply_materialization fv project start_date end_date commit_flag now r) = Inr ()"
    by (simp add: apply_materialization_found[OF assms a])
  show "cached_registry_proto
                 (snd (apply_materialization fv project start_date end_date commit_flag now r))
               = Some (reg\<lparr>feature_views := ys @ zs @
                   [m\<lparr>meta_materialization_intervals :=
                       meta_materialization_intervals m @ [(start_date, end_date)]\<rparr>]\<rparr>)"
    by (simp add: apply_materialization_found[OF assms a] maybe_commit_def commit_def)
next
  assume a: "stored_first (name fv) project (feature_views reg) ys m zs"
    and z: "\<forall>z\<in>set zs. \<not> matches (name fv) project z"
  define m1 where "m1 = m\<lparr>meta_materialization_intervals :=
                       meta_materialization_intervals m @ [(t0, t1)]\<rparr>"
  define m2 where "m2 = m1\<lparr>meta_materialization_intervals :=
                       meta_materialization_intervals m1 @ [(t1, t2)]\<rparr>"
  define ra where "ra = snd (apply_materialization fv project t0 t1 True now r)"
  define rb where "rb = snd (apply_materialization fv project t1 t2 True now2 ra)"
  define ws where "ws = ys @ zs"
  define rega where "rega = reg\<lparr>feature_views := ws @ [m1]\<rparr>"
  define regb where "regb = rega\<lparr>feature_views := ws @ [m2]\<rparr>"
  from a have xs: "feature_views reg = ys @ m # zs" by (simp add: stored_first_def)
  have a': "stored_first (name fv) project (ys @ m # zs) ys m zs" using a xs by simp
  have s1: "stored_first (name fv) project (ws @ [m1]) ws m1 []"
    unfolding ws_def using stored_first_last[OF a' z, of m1] by (simp add: m1_def)
  have s2: "stored_first (name fv) project (ws @ [m2]) ws m2 []"
    unfolding ws_def using stored_first_last[OF a' z, of m2] by (simp add: m1_def m2_def)
  have ca: "cached_registry_proto ra = Some rega" "content (registry_store ra) = Some rega"
    unfolding ra_def rega_def m1_def ws_def
    using apply_materialization_committed[OF assms a, of t0 t1] by simp_all
  have fa: "feature_views rega = ws @ [m1]" by (simp add: rega_def)
  have cb: "cached_registry_proto rb = Some regb" "content (registry_store rb) = Some regb"
    unfolding rb_def regb_def m2_def
    using apply_materialization_again[OF ca fa s1, of t1 t2 now2] by simp_all
  have fb: "feature_views regb = ws @ [m2]" by (simp add: regb_def)
  have "cached_registry_proto (snd (apply_materialization fv project t2 t3 True now3 rb))
          = Some (regb\<lparr>feature_views := ws @
                  [m2\<lparr>meta_materialization_intervals :=
                       meta_materialization_intervals m2 @ [(t2, t3)]\<rparr>]\<rparr>)"
    using apply_materialization_again[OF cb fb s2, of t2 t3 now3] by simp
  then show "cached_registry_proto
              (snd (apply_materialization fv project t2 t3 True now3
                (snd (apply_materialization fv project t1 t2 True now2
                  (snd (apply_materialization fv project t0 t1 True now r))))))
              = Some (reg\<lparr>feature_views := ys @ zs @
                   [m\<lparr>meta_materialization_intervals :=
                       meta_materialization_intervals m @ [(t0, t1), (t1, t2), (t2, t3)]\<rparr>]\<rparr>)"
    by (simp add: rb_def ra_def regb_def rega_def m2_def m1_def ws_def)
qed

theorem apply_materialization_appends_witness:
  "apply_materialization (mk_feature_view FeatureView ''w'' 0) ''p'' 5 6 True 7
      (mk_registry (RegistryProto\<lparr>feature_views := [mk_proto ''v'' ''p'' 1]\<rparr>))
     = (Inl (FeatureViewNotFoundException ''w'' ''p''),
        mk_registry (RegistryProto\<lparr>feature_views := [mk_proto ''v'' ''p'' 1]\<rparr>))
   \<and> cached_registry_proto
        (snd (apply_materialization (mk_feature_view FeatureView ''v'' 0) ''p'' 20 30 True 9
          (snd (apply_materialization (mk_feature_view FeatureView ''v'' 0) ''p'' 10 20 True 8
            (snd (apply_materialization (mk_feature_view FeatureView ''v'' 0) ''p'' 0 10 True 7
              (mk_registry (RegistryProto\<lparr>feature_views := [mk_proto ''v'' ''p'' 1]\<rparr>))))))))
     = Some (RegistryProto\<lparr>feature_views :=
         [(mk_proto ''v'' ''p'' 1)\<lparr>meta_materialization_intervals :=
             [(0, 10), (10, 20), (20, 30)]\<rparr>]\<rparr>)"
  using apply_materialization_appends [OF prepare_mk_registry,
      where fv = "mk_feature_view FeatureView ''w'' 0" and project = "''p''"
        and start_date = 5 and end_date = 6 and commit_flag = True and now = 7
        and ys = "[]" and m = "mk_proto ''v'' ''p'' 1" and zs = "[]"
        and reg = "RegistryProto\<lparr>feature_views := [mk_proto ''v'' ''p'' 1]\<rparr>"]
    apply_materialization_appends [OF prepare_mk_registry,
      where fv = "mk_feature_view FeatureView ''v'' 0" and project = "''p''"
        and ?t0.0 = 0 and ?t1.0 = 10 and ?t2.0 = 20 and ?t3.0 = 30
        and now = 7 and ?now2.0 = 8 and ?now3.0 = 9
        and ys = "[]" and m = "mk_proto ''v'' ''p'' 1" and zs = "[]"
        and reg = "RegistryProto\<lparr>feature_views := [mk_proto ''v'' ''p'' 1]\<rparr>"]
  by (simp add: stored_first_def matches_def mk_feature_view_def mk_proto_def RegistryProto_def)

subsection \<open>Unique keys\<close>

lemma matches_key: "matches nm project m = (key m = (nm, project))"
  by (simp add: matches_def key_def)

lemma find_first_Some_stored:
  "find_first (matches nm project) xs = Some (idx, m) \<Longrightarrow>
   stored_first nm project xs (take idx xs) m (drop (Suc idx) xs)"
proof -
  assume a: "find_first (matches nm project) xs = Some (idx, m)"
  from find_first_Some[OF a] have i: "idx < length xs" and x: "xs ! idx = m"
    and p: "matches nm project m" and n: "\<forall>j<idx. \<not> matches nm project (xs ! j)" by auto
  from i x have "xs = take idx xs @ m # drop (Suc idx) xs"
    by (metis id_take_nth_drop)
  moreover have "\<forall>y\<in>set (take idx xs). \<not> matches nm project y"
    using n i by (auto simp: in_set_conv_nth)
  ultimately show ?thesis using p by (simp add: stored_first_def)
qed

lemma unique_keys_delete_at: "unique_keys xs \<Longrightarrow> unique_keys (delete_at idx xs)"
proof -
  assume "unique_keys xs"
  then have d: "distinct (map key xs)" by (simp add: unique_keys_def)
  then have "distinct (take idx (map key xs) @ drop (Suc idx) (map key xs))"
    by (simp add: set_take_disj_set_drop_if_distinct)
  then show ?thesis by (simp add: take_map drop_map unique_keys_def delete_at_def)
qed

lemma unique_keys_stored_first:
  "unique_keys xs \<Longrightarrow> stored_first nm project xs ys m zs \<Longrightarrow>
   spec_name m' = nm \<Longrightarrow> spec_project m' = project \<Longrightarrow>
   unique_keys (ys @ zs @ [m']) \<and> (\<forall>z\<in>set zs. \<not> matches nm project z)"
  by (auto simp: unique_keys_def stored_first_def matches_def key_def rev_image_eqI)

lemma unique_keys_append_new:
  "unique_keys xs \<Longrightarrow> \<forall>x\<in>set xs. \<not> matches nm project x \<Longrightarrow>
   spec_name m' = nm \<Longrightarrow> spec_project m' = project \<Longrightarrow> unique_keys (xs @ [m'])"
  by (auto simp: unique_keys_def matches_def key_def)

lemma unique_keys_replace:
  assumes "unique_keys xs" and "spec_name m' = nm" and "spec_project m' = project"
  shows "unique_keys ((case find_first (matches nm project) xs of
                         None \<Rightarrow> xs | Some (idx, x) \<Rightarrow> delete_at idx xs) @ [m'])"
proof (cases "find_first (matches nm project) xs")
  case None
  then have "\<forall>x\<in>set xs. \<not> matches nm project x" by (simp add: find_first_None)
  from unique_keys_append_new[OF assms(1) this assms(2,3)] None show ?thesis by simp
next
  case (Some a)
  obtain idx m where a: "a = (idx, m)" by (cases a)
  from find_first_Some_stored[OF Some[unfolded a]]
  have "stored_first nm project xs (take idx xs) m (drop (Suc idx) xs)" .
  from unique_keys_stored_first[OF assms(1) this assms(2,3)] Some a show ?thesis
    by (simp add: delete_at_def)
qed

lemma unique_keys_no_break:
  assumes "unique_keys xs" and "spec_name m' = nm" and "spec_project m' = project"
  shows "unique_keys (delete_matching_no_break (matches nm project) 0 xs @ [m'])"
proof (cases "find_first (matches nm project) xs")
  case None
  then have n: "\<forall>x\<in>set xs. \<not> matches nm project x" by (simp add: find_first_None)
  then have "delete_matching_no_break (matches nm project) 0 xs = xs"
    by (intro delete_matching_no_break_none) simp
  with unique_keys_append_new[OF assms(1) n assms(2,3)] show ?thesis by simp
next
  case (Some a)
  obtain idx m where a: "a = (idx, m)" by (cases a)
  let ?ys = "take idx xs" and ?zs = "drop (Suc idx) xs"
  from find_first_Some_stored[OF Some[unfolded a]]
  have s: "stored_first nm project xs ?ys m ?zs" .
  from unique_keys_stored_first[OF assms(1) s assms(2,3)]
  have u: "unique_keys (?ys @ ?zs @ [m'])" and z: "\<forall>z\<in>set ?zs. \<not> matches nm project z" by auto
  from s have xs: "xs = ?ys @ m # ?zs" and pm: "matches nm project m"
    and ny: "\<forall>y\<in>set ?ys. \<not> matches nm project y" by (simp_all add: stored_first_def)
  from ny have nj: "\<forall>j. 0 \<le> j \<and> j < length ?ys \<longrightarrow> \<not> matches nm project (?ys ! j)"
    using nth_mem by blast
  have "delete_matching_no_break (matches nm project) 0 (?ys @ m # ?zs) = ?ys @ ?zs"
    by (rule delete_matching_no_break_one[OF _ nj pm z]) simp
  with xs u show ?thesis by simp
qed

lemma snapshot_unique_empty:
  "snapshot_unique (RegistryProto\<lparr>registry_schema_version := v\<rparr>)"
  by (simp add: snapshot_unique_def unique_keys_def RegistryProto_def)

lemma prepare_unique:
  assumes "registry_unique r" and "prepare_registry_for_changes now r = (Inr reg, r1)"
  shows "registry_unique r1 \<and> snapshot_unique reg"
  using assms snapshot_unique_empty[of REGISTRY_SCHEMA_VERSION]
  by (auto simp: prepare_registry_for_changes_def get_registry_proto_def
        store_get_registry_proto_def registry_unique_def Let_def
        split: option.splits bool.splits prod.splits sum.splits if_splits)

lemma maybe_commit_unique:
  "registry_unique r1 \<Longrightarrow> snapshot_unique reg \<Longrightarrow>
   registry_unique (maybe_commit c (r1\<lparr>cached_registry_proto := Some reg\<rparr>))"
  by (auto simp: registry_unique_def maybe_commit_def commit_def update_registry_proto_def
        split: option.splits)

lemma unique_keys_delete_first:
  assumes "unique_keys xs" and "find_first (matches nm project) xs = Some (idx, m)"
    and "spec_name m' = nm" and "spec_project m' = project"
  shows "unique_keys (delete_at idx xs @ [m'])"
  using unique_keys_replace[OF assms(1,3,4)] assms(2) by simp

lemma snapshot_unique_set_fv:
  "snapshot_unique reg \<Longrightarrow> unique_keys xs \<Longrightarrow>
   snapshot_unique (set_feature_views_of_same_type c xs reg)"
  by (cases c) (simp_all add: snapshot_unique_def)

lemma snapshot_unique_existing:
  "snapshot_unique reg \<Longrightarrow> unique_keys (existing_feature_views_of_same_type c reg)"
  by (cases c) (simp_all add: snapshot_unique_def)

lemma apply_entity_unique:
  assumes "registry_unique r"
  shows "registry_unique (snd (apply_entity is_valid e project c now r))"
proof (cases "is_valid e")
  case False
  with assms show ?thesis by (simp add: apply_entity_def)
next
  case True
  from prepare_cases[of now r] obtain reg r1 where
    p: "prepare_registry_for_changes now r = (Inr reg, r1)" by blast
  from prepare_unique[OF assms p] have u: "registry_unique r1" "snapshot_unique reg" by auto
  let ?m = "(to_proto e)\<lparr>spec_project := project\<rparr>"
  let ?kept = "(case find_first (matches (spec_name ?m) project) (entities reg) of
                  None \<Rightarrow> entities reg | Some (idx, x) \<Rightarrow> delete_at idx (entities reg))"
  from u(2) have "unique_keys (entities reg)" by (simp add: snapshot_unique_def)
  then have "unique_keys (?kept @ [?m])" by (intro unique_keys_replace) simp_all
  with u(2) have "snapshot_unique (reg\<lparr>entities := ?kept @ [?m]\<rparr>)"
    by (simp add: snapshot_unique_def)
  from maybe_commit_unique[OF u(1) this, of c] True p show ?thesis
    by (simp add: apply_entity_def Let_def)
qed

lemma apply_feature_service_unique:
  assumes "registry_unique r"
  shows "registry_unique (snd (apply_feature_service fs project c now r))"
proof -
  from prepare_cases[of now r] obtain reg r1 where
    p: "prepare_registry_for_changes now r = (Inr reg, r1)" by blast
  from prepare_unique[OF assms p] have u: "registry_unique r1" "snapshot_unique reg" by auto
  let ?m = "(to_proto fs)\<lparr>spec_project := project\<rparr>"
  let ?kept = "delete_matching_no_break (matches (spec_name ?m) project) 0 (feature_services reg)"
  from u(2) have "unique_keys (feature_services reg)" by (simp add: snapshot_unique_def)
  then have "unique_keys (?kept @ [?m])" by (intro unique_keys_no_break) simp_all
  with u(2) have "snapshot_unique (reg\<lparr>feature_services := ?kept @ [?m]\<rparr>)"
    by (simp add: snapshot_unique_def)
  from maybe_commit_unique[OF u(1) this, of c] p show ?thesis
    by (simp add: apply_feature_service_def Let_def)
qed

lemma apply_feature_view_unique:
  assumes "registry_unique r"
  shows "registry_unique (snd (apply_feature_view ensure_valid eq fv0 project c now r))"
proof (cases "ensure_valid fv0")
  case False
  with assms show ?thesis by (simp add: apply_feature_view_def)
next
  case True
  from prepare_cases[of now r] obtain reg r1 where
    p: "prepare_registry_for_changes now r = (Inr reg, r1)" by blast
  from prepare_unique[OF assms p] have u: "registry_unique r1" "snapshot_unique reg" by auto
  define fv where "fv = stamp_created now fv0"
  define m where "m = (to_proto fv)\<lparr>spec_project := project\<rparr>"
  define xs where "xs = existing_feature_views_of_same_type (fv_class fv) reg"
  have ux: "unique_keys xs" unfolding xs_def by (rule snapshot_unique_existing[OF u(2)])
  have mk: "spec_name m = spec_name m" "spec_project m = project" by (simp_all add: m_def)
  show ?thesis
  proof (cases "check_conflicting_feature_view_names reg fv")
    case (Inl e)
    with True p u(1) show ?thesis
      by (simp add: apply_feature_view_def Let_def fv_def)
  next
    case (Inr u')
    show ?thesis
    proof (cases "find_first (matches (spec_name m) project) xs")
      case None
      then have "\<forall>x\<in>set xs. \<not> matches (spec_name m) project x" by (simp add: find_first_None)
      from unique_keys_append_new[OF ux this mk] have "unique_keys (xs @ [m])" .
      from snapshot_unique_set_fv[OF u(2) this]
      have "snapshot_unique (set_feature_views_of_same_type (fv_class fv) (xs @ [m]) reg)" .
      from maybe_commit_unique[OF u(1) this, of c] True p Inr None show ?thesis
        by (simp add: apply_feature_view_def Let_def fv_def[symmetric] m_def[symmetric]
              xs_def[symmetric])
    next
      case (Some a)
      obtain idx x where a: "a = (idx, x)" by (cases a)
      from unique_keys_delete_first[OF ux Some[unfolded a] mk]
      have "unique_keys (delete_at idx xs @ [m])" .
      from snapshot_unique_set_fv[OF u(2) this]
      have "snapshot_unique (set_feature_views_of_same_type (fv_class fv) (delete_at idx xs @ [m]) reg)" .
      from maybe_commit_unique[OF u(1) this, of c] True p Inr Some a u(1) show ?thesis
        by (simp add: apply_feature_view_def Let_def fv_def[symmetric] m_def[symmetric]
              xs_def[symmetric])
    qed
  qed
qed

lemma apply_materialization_unique:
  assumes "registry_unique r"
  shows "registry_unique (snd (apply_materialization fv project s e c now r))"
proof -
  from prepare_cases[of now r] obtain reg r1 where
    p: "prepare_registry_for_changes now r = (Inr reg, r1)" by blast
  from prepare_unique[OF assms p] have u: "registry_unique r1" "snapshot_unique reg" by auto
  from u(2) have ux: "unique_keys (feature_views reg)" by (simp add: snapshot_unique_def)
  show ?thesis
  proof (cases "find_first (matches (name fv) project) (feature_views reg)")
    case None
    with p u(1) show ?thesis by (simp add: apply_materialization_def)
  next
    case (Some a)
    obtain idx x where a: "a = (idx, x)" by (cases a)
    from find_first_Some[OF Some[unfolded a]] have mx: "matches (name fv) project x" by simp
    define m where "m = (to_proto ((fv_from_proto FeatureView x)
        \<lparr>materialization_intervals :=
           materialization_intervals (fv_from_proto FeatureView x) @ [(s, e)]\<rparr>))
        \<lparr>spec_project := project\<rparr>"
    have mk: "spec_name m = name fv" "spec_project m = project"
      using mx by (simp_all add: m_def to_proto_def fv_from_proto_def matches_def)
    from unique_keys_delete_first[OF ux Some[unfolded a] mk]
    have "unique_keys (delete_at idx (feature_views reg) @ [m])" .
    with u(2) have "snapshot_unique (reg\<lparr>feature_views := delete_at idx (feature_views reg) @ [m]\<rparr>)"
      by (simp add: snapshot_unique_def)
    from maybe_commit_unique[OF u(1) this, of c] p Some a show ?thesis
      by (simp add: apply_materialization_def Let_def m_def[symmetric])
  qed
qed

lemma delete_entity_unique:
  assumes "registry_unique r"
  shows "registry_unique (snd (delete_entity nm project c now r))"
proof -
  from prepare_cases[of now r] obtain reg r1 where
    p: "prepare_registry_for_changes now r = (Inr reg, r1)" by blast
  from prepare_unique[OF assms p] have u: "registry_unique r1" "snapshot_unique reg" by auto
  have "\<And>idx. snapshot_unique (reg\<lparr>entities := delete_at idx (entities reg)\<rparr>)"
    using u(2) by (simp add: snapshot_unique_def unique_keys_delete_at)
  from maybe_commit_unique[OF u(1) this, of c] p u(1) show ?thesis
    by (auto simp: delete_entity_def split: option.splits)
qed

lemma delete_feature_service_unique:
  assumes "registry_unique r"
  shows "registry_unique (snd (delete_feature_service nm project c now r))"
proof -
  from prepare_cases[of now r] obtain reg r1 where
    p: "prepare_registry_for_changes now r = (Inr reg, r1)" by blast
  from prepare_unique[OF assms p] have u: "registry_unique r1" "snapshot_unique reg" by auto
  have "\<And>idx. snapshot_unique (reg\<lparr>feature_services := delete_at idx (feature_services reg)\<rparr>)"
    using u(2) by (simp add: snapshot_unique_def unique_keys_delete_at)
  from maybe_commit_unique[OF u(1) this, of c] p u(1) show ?thesis
    by (auto simp: delete_feature_service_def split: option.splits)
qed

lemma delete_feature_view_unique:
  assumes "registry_unique r"
  shows "registry_unique (snd (delete_feature_view nm project c now r))"
proof -
  from prepare_cases[of now r] obtain reg r1 where
    p: "prepare_registry_for_changes now r = (Inr reg, r1)" by blast
  from prepare_unique[OF assms p] have u: "registry_unique r1" "snapshot_unique reg" by auto
  have a: "\<And>idx. snapshot_unique (reg\<lparr>feature_views := delete_at idx (feature_views reg)\<rparr>)"
    using u(2) by (simp add: snapshot_unique_def unique_keys_delete_at)
  have b: "\<And>idx. snapshot_unique
      (reg\<lparr>request_feature_views := delete_at idx (request_feature_views reg)\<rparr>)"
    using u(2) by (simp add: snapshot_unique_def unique_keys_delete_at)
  from maybe_commit_unique[OF u(1) a, of c] maybe_commit_unique[OF u(1) b, of c] p u(1)
  show ?thesis
    by (auto simp: delete_feature_view_def split: option.splits)
qed

lemma exec_op_unique:
  "registry_unique r \<Longrightarrow> registry_unique (exec_op is_valid ensure_valid eq op r)"
  by (cases op)
     (simp_all add: apply_entity_unique apply_feature_service_unique apply_feature_view_unique
        apply_materialization_unique delete_entity_unique delete_feature_service_unique
        delete_feature_view_unique)

lemma exec_ops_unique:
  "registry_unique r \<Longrightarrow> registry_unique (exec_ops is_valid ensure_valid eq ops r)"
  by (induction ops arbitrary: r) (simp_all add: exec_op_unique)

lemma distinct_filter_le_1:
  "distinct (map f xs) \<Longrightarrow> length (filter (\<lambda>x. f x = k) xs) \<le> Suc 0"
proof (induction xs)
  case Nil
  then show ?case by simp
next
  case (Cons a xs)
  then have d: "f a \<notin> f ` set xs" "distinct (map f xs)" by simp_all
  show ?case
  proof (cases "f a = k")
    case True
    from d(1) have "\<forall>x\<in>set xs. f x \<noteq> f a" by (metis imageI)
    with True have "filter (\<lambda>x. f x = k) xs = []" by (simp add: filter_empty_conv)
    with True show ?thesis by simp
  next
    case False
    with Cons.IH[OF d(2)] show ?thesis by simp
  qed
qed

lemma unique_keys_at_most_one:
  "unique_keys xs \<Longrightarrow> length (filter (matches nm project) xs) \<le> Suc 0"
proof -
  assume "unique_keys xs"
  then have "length (filter (\<lambda>x. key x = (nm, project)) xs) \<le> Suc 0"
    unfolding unique_keys_def by (rule distinct_filter_le_1)
  moreover have "filter (matches nm project) xs = filter (\<lambda>x. key x = (nm, project)) xs"
    by (rule filter_cong) (simp_all add: matches_key)
  ultimately show ?thesis by simp
qed

text \<open>
  Claim C8. From a registry whose cached snapshot and stored snapshot have unique keys,
  any sequence of \<^verbatim>\<open>apply_entity\<close>, \<^verbatim>\<open>apply_feature_service\<close>,
  \<^verbatim>\<open>apply_feature_view\<close>, \<^verbatim>\<open>apply_materialization\<close>, \<^verbatim>\<open>delete_entity\<close>,
  \<^verbatim>\<open>delete_feature_service\<close> and \<^verbatim>\<open>delete_feature_view\<close> calls, with any arguments
  and whether each call returns or raises, leads to a registry with the same property:
  in its cached snapshot the entities, the feature views, the on-demand feature views,
  the request feature views and the feature services each hold at most one entry for any
  name and project.
\<close>

theorem exec_ops_unique_keys:
  assumes "registry_unique r"
  shows "registry_unique (exec_ops is_valid ensure_valid eq ops r)
    \<and> (\<forall>reg. cached_registry_proto (exec_ops is_valid ensure_valid eq ops r) = Some reg \<longrightarrow>
          (\<forall>nm project.
             length (filter (matches nm project) (entities reg)) \<le> 1
           \<and> length (filter (matches nm project) (feature_views reg)) \<le> 1
           \<and> length (filter (matches nm project) (on_demand_feature_views reg)) \<le> 1
           \<and> length (filter (matches nm project) (request_feature_views reg)) \<le> 1
           \<and> length (filter (matches nm project) (feature_services reg)) \<le> 1))"
proof -
  have u: "registry_unique (exec_ops is_valid ensure_valid eq ops r)"
    by (rule exec_ops_unique[OF assms])
  then have "\<And>reg. cached_registry_proto (exec_ops is_valid ensure_valid eq ops r) = Some reg
      \<Longrightarrow> snapshot_unique reg"
    by (simp add: registry_unique_def)
  with u show ?thesis
    by (auto simp: snapshot_unique_def unique_keys_at_most_one)
qed

theorem exec_ops_unique_keys_witness:
  "registry_unique (mk_registry RegistryProto)
   \<and> registry_unique (exec_ops (\<lambda>e. True) (\<lambda>fv. True) (\<lambda>a b. payload a = payload b)
        [ApplyEntity (mk_fco ''a'' 1) ''p'' True 1, ApplyEntity (mk_fco ''a'' 2) ''p'' True 2,
         ApplyFeatureView (mk_feature_view FeatureView ''v'' 3) ''p'' True 3,
         ApplyMaterialization (mk_feature_view FeatureView ''v'' 3) ''p'' 0 10 True 4,
         ApplyFeatureService (mk_fco ''s'' 1) ''p'' True 5,
         DeleteEntity ''a'' ''p'' True 6, DeleteFeatureView ''v'' ''p'' True 7,
         DeleteFeatureService ''s'' ''p'' True 8]
        (mk_registry RegistryProto))"
proof -
  have h: "registry_unique (mk_registry RegistryProto)"
    by (simp add: registry_unique_def mk_registry_def snapshot_unique_def unique_keys_def
          RegistryProto_def)
  from exec_ops_unique_keys[OF h] h show ?thesis by blast
qed

subsection \<open>The dictionary form\<close>

lemma insort_key_map:
  "insort_key f (g x) (map g ys) = map g (insort_key (\<lambda>y. f (g y)) x ys)"
  by (induction ys) simp_all

lemma sort_key_map: "sort_key f (map g xs) = map g (sort_key (\<lambda>y. f (g y)) xs)"
  by (induction xs) (simp_all add: insort_key_map)

lemma dict_get_append:
  "dict_get (dict_append k v d) k' = (if k' = k then dict_get d k @ [v] else dict_get d k')"
  by (simp add: dict_get_def dict_append_def)

lemma dict_get_foldl:
  "dict_get (foldl (\<lambda>d x. dict_append k (f x) d) d xs) k'
     = (if k' = k then dict_get d k @ map f xs else dict_get d k')"
  by (induction xs arbitrary: d) (simp_all add: dict_get_append)

lemma dict_get_append_sorted:
  "dict_get (append_sorted M label objs d) k
     = (if k = label then dict_get d k @ map (\<lambda>obj. M (to_proto obj)) (sort_key name objs)
        else dict_get d k)"
  by (simp add: append_sorted_def dict_get_foldl)

lemma to_proto_from_proto: "to_proto (from_proto m) = m\<lparr>spec_project := ''''\<rparr>"
  by (simp add: to_proto_def from_proto_def)

lemma to_proto_fv_from_proto: "to_proto (fv_from_proto c m) = m\<lparr>spec_project := ''''\<rparr>"
  by (simp add: to_proto_def fv_from_proto_def)

lemma name_from_proto: "name (from_proto m) = spec_name m"
  by (simp add: from_proto_def)

lemma name_fv_from_proto: "name (fv_from_proto c m) = spec_name m"
  by (simp add: fv_from_proto_def)

lemma list_entities_store:
  "content (registry_store r) = Some reg \<Longrightarrow>
   \<exists>r'. list_entities project now False r
          = (Inr (map from_proto (filter (\<lambda>m. spec_project m = project) (entities reg))), r')
        \<and> content (registry_store r') = Some reg"
  by (simp add: list_entities_def get_registry_proto_load)

lemma list_feature_services_store:
  "content (registry_store r) = Some reg \<Longrightarrow>
   \<exists>r'. list_feature_services project now False r
          = (Inr (map from_proto (filter (\<lambda>m. spec_project m = project) (feature_services reg))), r')
        \<and> content (registry_store r') = Some reg"
  by (simp add: list_feature_services_def get_registry_proto_load)

lemma list_feature_views_store:
  "content (registry_store r) = Some reg \<Longrightarrow>
   \<exists>r'. list_feature_views project now False r
          = (Inr (map (fv_from_proto FeatureView)
                   (filter (\<lambda>m. spec_project m = project) (feature_views reg))), r')
        \<and> content (registry_store r') = Some reg"
  by (simp add: list_feature_views_def get_registry_proto_load)

lemma list_on_demand_feature_views_store:
  "content (registry_store r) = Some reg \<Longrightarrow>
   \<exists>r'. list_on_demand_feature_views project now False r
          = (Inr (map (fv_from_proto OnDemandFeatureView)
                   (filter (\<lambda>m. spec_project m = project) (on_demand_feature_views reg))), r')
        \<and> content (registry_store r') = Some reg"
  by (simp add: list_on_demand_feature_views_def get_registry_proto_load)

lemma list_request_feature_views_store:
  "content (registry_store r) = Some reg \<Longrightarrow>
   \<exists>r'. list_request_feature_views project now False r
          = (Inr (map (fv_from_proto RequestFeatureView)
                   (filter (\<lambda>m. spec_project m = project) (request_feature_views reg))), r')
        \<and> content (registry_store r') = Some reg"
  by (simp add: list_request_feature_views_def get_registry_proto_load)

lemma to_dict_store:
  assumes "content (registry_store r) = Some reg"
  shows "\<exists>r'. to_dict M project now r =
      (Inr (append_sorted M ''requestFeatureViews''
              (map (fv_from_proto RequestFeatureView)
                 (filter (\<lambda>m. spec_project m = project) (request_feature_views reg)))
           (append_sorted M ''onDemandFeatureViews''
              (map (fv_from_proto OnDemandFeatureView)
                 (filter (\<lambda>m. spec_project m = project) (on_demand_feature_views reg)))
           (append_sorted M ''featureServices''
              (map from_proto (filter (\<lambda>m. spec_project m = project) (feature_services reg)))
           (append_sorted M ''featureViews''
              (map (fv_from_proto FeatureView)
                 (filter (\<lambda>m. spec_project m = project) (feature_views reg)))
           (append_sorted M ''entities''
              (map from_proto (filter (\<lambda>m. spec_project m = project) (entities reg)))
              Map.empty))))), r')
    \<and> content (registry_store r') = Some reg"
proof -
  from list_entities_store[OF assms, of project now] obtain r1 where
    1: "list_entities project now False r
          = (Inr (map from_proto (filter (\<lambda>m. spec_project m = project) (entities reg))), r1)"
    and c1: "content (registry_store r1) = Some reg" by blast
  from list_feature_views_store[OF c1, of project now] obtain r2 where
    2: "list_feature_views project now False r1
          = (Inr (map (fv_from_proto FeatureView)
                   (filter (\<lambda>m. spec_project m = project) (feature_views reg))), r2)"
    and c2: "content (registry_store r2) = Some reg" by blast
  from list_feature_services_store[OF c2, of project now] obtain r3 where
    3: "list_feature_services project now False r2
          = (Inr (map from_proto (filter (\<lambda>m. spec_project m = project) (feature_services reg))), r3)"
    and c3: "content (registry_store r3) = Some reg" by blast
  from list_on_demand_feature_views_store[OF c3, of project now] obtain r4 where
    4: "list_on_demand_feature_views project now False r3
          = (Inr (map (fv_from_proto OnDemandFeatureView)
                   (filter (\<lambda>m. spec_project m = project) (on_demand_feature_views reg))), r4)"
    and c4: "content (registry_store r4) = Some reg" by blast
  from list_request_feature_views_store[OF c4, of project now] obtain r5 where
    5: "list_request_feature_views project now False r4
          = (Inr (map (fv_from_proto RequestFeatureView)
                   (filter (\<lambda>m. spec_project m = project) (request_feature_views reg))), r5)"
    and c5: "content (registry_store r5) = Some reg" by blast
  from 1 2 3 4 5 c5 show ?thesis by (simp add: to_dict_def)
qed

lemma sorted_entries:
  "entries_sorted_by_name project coll
     (sort_key spec_name (filter (\<lambda>m. spec_project m = project) coll))"
  by (simp add: entries_sorted_by_name_def)

text \<open>
  Claim C9. \<^verbatim>\<open>to_dict\<close> lists every kind with \<^verbatim>\<open>allow_cache=False\<close>, so the
  snapshot it projects is the one the store holds. When the store holds \<open>reg\<close>,
  \<^verbatim>\<open>to_dict\<close> returns a dictionary that has, under each of the five labels, the
  rendering of exactly the entries of that collection of \<open>reg\<close> whose project matches,
  in the order of their names; and calling it again on the registry the first call
  left, at any instant, returns the same dictionary.
\<close>

theorem to_dict_sorted:
  assumes "content (registry_store r) = Some reg"
  shows "\<exists>d es fvs fss odfvs rfvs.
      fst (to_dict MessageToDict project now r) = Inr d
    \<and> entries_sorted_by_name project (entities reg) es
    \<and> dict_get d ''entities'' = map (\<lambda>m. MessageToDict (to_proto (from_proto m))) es
    \<and> entries_sorted_by_name project (feature_views reg) fvs
    \<and> dict_get d ''featureViews''
        = map (\<lambda>m. MessageToDict (to_proto (fv_from_proto FeatureView m))) fvs
    \<and> entries_sorted_by_name project (feature_services reg) fss
    \<and> dict_get d ''featureServices'' = map (\<lambda>m. MessageToDict (to_proto (from_proto m))) fss
    \<and> entries_sorted_by_name project (on_demand_feature_views reg) odfvs
    \<and> dict_get d ''onDemandFeatureViews''
        = map (\<lambda>m. MessageToDict (to_proto (fv_from_proto OnDemandFeatureView m))) odfvs
    \<and> entries_sorted_by_name project (request_feature_views reg) rfvs
    \<and> dict_get d ''requestFeatureViews''
        = map (\<lambda>m. MessageToDict (to_proto (fv_from_proto RequestFeatureView m))) rfvs
    \<and> fst (to_dict MessageToDict project now2 (snd (to_dict MessageToDict project now r)))
        = Inr d"
proof -
  define es where "es = sort_key spec_name (filter (\<lambda>m. spec_project m = project) (entities reg))"
  define fvs where
    "fvs = sort_key spec_name (filter (\<lambda>m. spec_project m = project) (feature_views reg))"
  define fss where
    "fss = sort_key spec_name (filter (\<lambda>m. spec_project m = project) (feature_services reg))"
  define odfvs where
    "odfvs = sort_key spec_name (filter (\<lambda>m. spec_project m = project) (on_demand_feature_views reg))"
  define rfvs where
    "rfvs = sort_key spec_name (filter (\<lambda>m. spec_project m = project) (request_feature_views reg))"
  define d where "d = append_sorted MessageToDict ''requestFeatureViews''
              (map (fv_from_proto RequestFeatureView)
                 (filter (\<lambda>m. spec_project m = project) (request_feature_views reg)))
           (append_sorted MessageToDict ''onDemandFeatureViews''
              (map (fv_from_proto OnDemandFeatureView)
                 (filter (\<lambda>m. spec_project m = project) (on_demand_feature_views reg)))
           (append_sorted MessageToDict ''featureServices''
              (map from_proto (filter (\<lambda>m. spec_project m = project) (feature_services reg)))
           (append_sorted MessageToDict ''featureViews''
              (map (fv_from_proto FeatureView)
                 (filter (\<lambda>m. spec_project m = project) (feature_views reg)))
           (append_sorted MessageToDict ''entities''
              (map from_proto (filter (\<lambda>m. spec_project m = project) (entities reg)))
              Map.empty))))"
  from to_dict_store[OF assms, of MessageToDict project now] obtain r' where
    t: "to_dict MessageToDict project now r = (Inr d, r')"
    and c: "content (registry_store r') = Some reg" unfolding d_def by blast
  from to_dict_store[OF c, of MessageToDict project now2] obtain r'' where
    "to_dict MessageToDict project now2 r' = (Inr d, r'')" unfolding d_def by blast
  with t have again:
    "fst (to_dict MessageToDict project now2 (snd (to_dict MessageToDict project now r))) = Inr d"
    by simp
  have e: "dict_get Map.empty k = []" for k :: string
    by (simp add: dict_get_def)
  have g1: "dict_get d ''entities'' = map (\<lambda>m. MessageToDict (to_proto (from_proto m))) es"
    unfolding d_def es_def
    by (simp add: dict_get_append_sorted e sort_key_map name_from_proto)
  have g2: "dict_get d ''featureViews''
        = map (\<lambda>m. MessageToDict (to_proto (fv_from_proto FeatureView m))) fvs"
    unfolding d_def fvs_def
    by (simp add: dict_get_append_sorted e sort_key_map name_fv_from_proto)
  have g3: "dict_get d ''featureServices'' = map (\<lambda>m. MessageToDict (to_proto (from_proto m))) fss"
    unfolding d_def fss_def
    by (simp add: dict_get_append_sorted e sort_key_map name_from_proto)
  have g4: "dict_get d ''onDemandFeatureViews''
        = map (\<lambda>m. MessageToDict (to_proto (fv_from_proto OnDemandFeatureView m))) odfvs"
    unfolding d_def odfvs_def
    by (simp add: dict_get_append_sorted e sort_key_map name_fv_from_proto)
  have g5: "dict_get d ''requestFeatureViews''
        = map (\<lambda>m. MessageToDict (to_proto (fv_from_proto RequestFeatureView m))) rfvs"
    unfolding d_def rfvs_def
    by (simp add: dict_get_append_sorted e sort_key_map name_fv_from_proto)
  have s: "entries_sorted_by_name project (entities reg) es"
    "entries_sorted_by_name project (feature_views reg) fvs"
    "entries_sorted_by_name project (feature_services reg) fss"
    "entries_sorted_by_name project (on_demand_feature_views reg) odfvs"
    "entries_sorted_by_name project (request_feature_views reg) rfvs"
    unfolding es_def fvs_def fss_def odfvs_def rfvs_def by (rule sorted_entries)+
  from t g1 g2 g3 g4 g5 s again show ?thesis by (intro exI[of _ d] exI conjI) simp_all
qed

theorem to_dict_sorted_witness:
  "content (registry_store
      \<lparr>cached_registry_proto = None, cached_registry_proto_created = None,
       cached_registry_proto_ttl = 0,
       registry_store = \<lparr>content = Some (RegistryProto
         \<lparr>entities := [mk_proto ''b'' ''p'' 1, mk_proto ''a'' ''p'' 2, mk_proto ''c'' ''q'' 3]\<rparr>),
         loads = 0\<rparr>\<rparr>)
     = Some (RegistryProto
         \<lparr>entities := [mk_proto ''b'' ''p'' 1, mk_proto ''a'' ''p'' 2, mk_proto ''c'' ''q'' 3]\<rparr>)
   \<and> (\<exists>d es. fst (to_dict spec_name ''p'' 0
      \<lparr>cached_registry_proto = None, cached_registry_proto_created = None,
       cached_registry_proto_ttl = 0,
       registry_store = \<lparr>content = Some (RegistryProto
         \<lparr>entities := [mk_proto ''b'' ''p'' 1, mk_proto ''a'' ''p'' 2, mk_proto ''c'' ''q'' 3]\<rparr>),
         loads = 0\<rparr>\<rparr>) = Inr d
       \<and> entries_sorted_by_name ''p''
            [mk_proto ''b'' ''p'' 1, mk_proto ''a'' ''p'' 2, mk_proto ''c'' ''q'' 3] es
       \<and> dict_get d ''entities'' = map (\<lambda>m. spec_name (to_proto (from_proto m))) es)
   \<and> fst (to_dict spec_name ''p'' 0
      \<lparr>cached_registry_proto = None, cached_registry_proto_created = None,
       cached_registry_proto_ttl = 0,
       registry_store = \<lparr>content = Some (RegistryProto
         \<lparr>entities := [mk_proto ''b'' ''p'' 1, mk_proto ''a'' ''p'' 2, mk_proto ''c'' ''q'' 3]\<rparr>),
         loads = 0\<rparr>\<rparr>)
     = Inr [''entities'' \<mapsto> [''a'', ''b'']]"
proof -
  let ?reg = "RegistryProto
         \<lparr>entities := [mk_proto ''b'' ''p'' 1, mk_proto ''a'' ''p'' 2, mk_proto ''c'' ''q'' 3]\<rparr>"
  let ?r = "\<lparr>cached_registry_proto = None, cached_registry_proto_created = None,
       cached_registry_proto_ttl = 0, registry_store = \<lparr>content = Some ?reg, loads = 0\<rparr>\<rparr>"
  have h: "content (registry_store ?r) = Some ?reg" by simp
  have ev: "fst (to_dict spec_name ''p'' 0 ?r) = Inr [''entities'' \<mapsto> [''a'', ''b'']]"
    by (simp add: to_dict_def list_entities_def list_feature_views_def
          list_feature_services_def list_on_demand_feature_views_def
          list_request_feature_views_def get_registry_proto_def store_get_registry_proto_def
          append_sorted_def dict_append_def RegistryProto_def mk_proto_def from_proto_def
          to_proto_def)
  from to_dict_sorted[OF h, of spec_name "''p''" 0 0] obtain d es where
    "fst (to_dict spec_name ''p'' 0 ?r) = Inr d"
    "entries_sorted_by_name ''p'' (entities ?reg) es"
    "dict_get d ''entities'' = map (\<lambda>m. spec_name (to_proto (from_proto m))) es"
    by blast
  with h ev show ?thesis by (auto simp: RegistryProto_def)
qed

subsection \<open>The diff of a registry with itself\<close>

lemma property_diffs_same: "property_diffs m m = []"
  by (simp add: property_diffs_def fields_def)

lemma diff_between_same: "diff_between m m object_type = None"
  by (simp add: diff_between_def property_diffs_same)

lemma tag_same:
  "tag_proto_objects_for_keep_delete_add xs xs = (sort_key spec_name xs, [], [])"
  by (simp add: tag_proto_objects_for_keep_delete_add_def Let_def)

lemma first_of_name:
  assumes "same_name_same_entry xs" and "e \<in> set xs"
  shows "\<exists>rest. filter (\<lambda>c. spec_name c = spec_name e) xs = e # rest"
proof (cases "filter (\<lambda>c. spec_name c = spec_name e) xs")
  case Nil
  with assms(2) show ?thesis by (auto simp: filter_empty_conv)
next
  case (Cons c rest)
  then have "c \<in> set (filter (\<lambda>c. spec_name c = spec_name e) xs)" by simp
  then have "c \<in> set xs" "spec_name c = spec_name e" by simp_all
  with assms have "c = e" by (auto simp: same_name_same_entry_def)
  with Cons show ?thesis by simp
qed

lemma diff_objects_to_keep_same:
  "same_name_same_entry xs \<Longrightarrow> set es \<subseteq> set xs \<Longrightarrow>
   diff_objects_to_keep object_type_str xs es diff = Inr diff"
proof (induction es)
  case Nil
  then show ?case by simp
next
  case (Cons e es)
  from first_of_name[OF Cons.prems(1), of e] Cons.prems(2) obtain rest where
    "filter (\<lambda>c. spec_name c = spec_name e) xs = e # rest" by auto
  with Cons show ?case by (simp add: diff_between_same add_fco_diff_def)
qed

lemma diff_object_type_same:
  "same_name_same_entry xs \<Longrightarrow> diff_object_type object_type_str xs xs diff = Inr diff"
  by (simp add: diff_object_type_def tag_same diff_objects_to_keep_same)

text \<open>
  Claim C3, as stated, fails. \<^verbatim>\<open>Registry.diff_between\<close> matches the objects of a
  collection by name alone and compares a kept object with the first current object of
  that name. A snapshot that holds the entity \<open>''driver''\<close> in two projects is compared
  with itself: the entry of the second project is compared with the entry of the first,
  and an UPDATE record comes out.
\<close>

theorem registry_diff_between_same_counterexample:
  "registry_diff_between
     (RegistryProto\<lparr>entities := [mk_proto ''driver'' ''p1'' 1, mk_proto ''driver'' ''p2'' 2]\<rparr>)
     (RegistryProto\<lparr>entities := [mk_proto ''driver'' ''p1'' 1, mk_proto ''driver'' ''p2'' 2]\<rparr>)
   = Inr [FcoDiff ''driver'' ''entity'' (Some (mk_proto ''driver'' ''p1'' 1))
            (Some (mk_proto ''driver'' ''p2'' 2))
            [\<lparr>property_name = ''project'', val_existing = StringValue ''p1'',
              val_declared = StringValue ''p2''\<rparr>,
             \<lparr>property_name = ''payload'', val_existing = PayloadValue 1,
              val_declared = PayloadValue 2\<rparr>]
            UPDATE]"
  by (simp add: registry_diff_between_def attribute_to_object_type_str_def diff_object_type_def
        tag_proto_objects_for_keep_delete_add_def Let_def RegistryProto_def mk_proto_def
        diff_between_def property_diffs_def fields_def add_fco_diff_def)

text \<open>
  Claim C3, amended. For every snapshot in which, within each of the six collections,
  two entries with the same name are the same entry, the diff of the snapshot with
  itself is the empty change set: every object is kept, is matched with itself, and no
  field differs.
\<close>

theorem registry_diff_between_same:
  assumes "same_name_same_entry (entities S)" and "same_name_same_entry (feature_views S)"
    and "same_name_same_entry (feature_tables S)"
    and "same_name_same_entry (on_demand_feature_views S)"
    and "same_name_same_entry (request_feature_views S)"
    and "same_name_same_entry (feature_services S)"
  shows "registry_diff_between S S = Inr []"
  using assms
  by (simp add: registry_diff_between_def attribute_to_object_type_str_def diff_object_type_same)

theorem registry_diff_between_same_witness:
  "same_name_same_entry [mk_proto ''driver_id'' ''p'' 1, mk_proto ''customer_id'' ''p'' 2]
   \<and> registry_diff_between
     (RegistryProto\<lparr>entities := [mk_proto ''driver_id'' ''p'' 1, mk_proto ''customer_id'' ''p'' 2]\<rparr>)
     (RegistryProto\<lparr>entities := [mk_proto ''driver_id'' ''p'' 1, mk_proto ''customer_id'' ''p'' 2]\<rparr>)
   = Inr []"
  using registry_diff_between_same [of "RegistryProto\<lparr>entities := [mk_proto ''driver_id'' ''p'' 1,
                                              mk_proto ''customer_id'' ''p'' 2]\<rparr>"]
  by (simp add: same_name_same_entry_def RegistryProto_def mk_proto_def)

end
